theory Spec2Isabelle
  imports Main
begin

section \<open>Conversation messages and the external collaborators\<close>

text \<open>
  The two chat clients (\<^verbatim>\<open>fastmcp_netflix/client/main.py\<close> and
  \<^verbatim>\<open>puppy_guide/client/main.py\<close>) keep the conversation in a Python list
  \<^verbatim>\<open>messages\<close>. Its elements are the dictionaries built by the client and the
  assistant message objects returned by the LLM API.

  A Python \<^verbatim>\<open>str\<close> is modelled as a \<open>string\<close> whose characters are the code points
  below 256.
\<close>

record tool_call =
  tc_id :: string
  tc_name :: string
  tc_arguments :: string

record assistant_message =
  am_content :: "string option"
  am_tool_calls :: "tool_call list option"

datatype message =
    SystemMessage "string option"
  | UserMessage string
  | AssistantMessage assistant_message
  | ToolMessage string string string

text \<open>
  \<open>ToolMessage i n c\<close> is the dictionary
  \<^verbatim>\<open>{"role": "tool", "tool_call_id": i, "name": n, "content": c}\<close>.
\<close>

text \<open>
  A content block of a tool result is an object of the protocol library. The clients
  observe it in two ways only: through its \<^verbatim>\<open>text\<close> attribute, which a block may
  lack (\<^verbatim>\<open>hasattr(block, "text")\<close>), and through its Python rendering
  (\<^verbatim>\<open>repr\<close>). The result object carries the content sequence and has a rendering
  of its own (\<^verbatim>\<open>str(result)\<close>).
\<close>

record content_block =
  block_text :: "string option"
  block_repr :: string

record call_tool_result =
  content :: "content_block list"
  result_str :: string

text \<open>
  Exceptions that leave one of the modelled functions. \<open>OtherError\<close> stands for any other
  instance of \<^verbatim>\<open>Exception\<close>, with its message.
\<close>

datatype py_exception =
    JSONDecodeError
  | IndexError
  | EOFError
  | KeyboardInterrupt
  | OtherError string

text \<open>
  The outcome of \<^verbatim>\<open>await mcp_client.call_tool(name, args)\<close>: the result object, or
  an instance \<^verbatim>\<open>e\<close> of \<^verbatim>\<open>Exception\<close> given by its message
  \<^verbatim>\<open>str(e)\<close>.
\<close>

datatype call_outcome = Returned call_tool_result | Raised string

text \<open>
  The LLM backend, the remote tool host and the JSON decoder are outside the repository.
  They are parameters of the model, and they act on a state \<open>'w\<close> of the outside world
  that is threaded through every call:
  \<^item> \<open>complete\<close> is \<^verbatim>\<open>openai_client.chat.completions.create(...)\<close> followed by
    \<^verbatim>\<open>response.choices[0].message\<close>; it returns the assistant message or raises;
  \<^item> \<open>call_tool\<close> is \<^verbatim>\<open>mcp_client.call_tool\<close>;
  \<^item> \<open>json_loads\<close> is \<^verbatim>\<open>json.loads\<close>, \<open>None\<close> when it raises
    \<^verbatim>\<open>JSONDecodeError\<close>;
  \<^item> \<open>max_history\<close> is the constant \<^verbatim>\<open>MAX_HISTORY\<close>, read from the process
    environment;
  \<^item> \<open>input_line\<close> is \<^verbatim>\<open>input(prompt)\<close> at the top-level prompt.
\<close>

record ('w, 'j) env =
  complete :: "'w \<Rightarrow> message list \<Rightarrow> (py_exception + assistant_message) \<times> 'w"
  call_tool :: "'w \<Rightarrow> string \<Rightarrow> 'j \<Rightarrow> call_outcome \<times> 'w"
  json_loads :: "string \<Rightarrow> 'j option"
  max_history :: int
  input_line :: "'w \<Rightarrow> (py_exception + string) \<times> 'w"

section \<open>Text of a tool result\<close>

text \<open>\<^verbatim>\<open>sep.join(xs)\<close> of Python.\<close>

fun py_join :: "string \<Rightarrow> string list \<Rightarrow> string" where
  "py_join sep [] = []"
| "py_join sep [x] = x"
| "py_join sep (x # y # ys) = x @ sep @ py_join sep (y # ys)"

definition newline :: string where
  "newline = [CHR 0x0A]"

text \<open>
  \<^verbatim>\<open>fastmcp_netflix/client/main.py\<close>, lines 123-125:
  \<^verbatim>\<open>"\n".join(block.text for block in result.content if hasattr(block, "text"))\<close>.
\<close>

definition netflix_result_text :: "call_tool_result \<Rightarrow> string" where
  "netflix_result_text result =
     py_join newline
       (map (\<lambda>block. the (block_text block))
          (filter (\<lambda>block. block_text block \<noteq> None) (content result)))"

text \<open>\<^verbatim>\<open>puppy_guide/client/main.py\<close>, line 88: \<^verbatim>\<open>str(result)\<close>.\<close>

definition puppy_result_text :: "call_tool_result \<Rightarrow> string" where
  "puppy_result_text result = result_str result"

text \<open>
  \<^verbatim>\<open>str\<close> of a Python list, given the \<^verbatim>\<open>repr\<close> of each element.
\<close>

definition py_str_list :: "string list \<Rightarrow> string" where
  "py_str_list reprs = ''['' @ py_join '', '' reprs @ '']''"

text \<open>\<^verbatim>\<open>mcp-client/client.py\<close>, line 68: \<^verbatim>\<open>str(result.content)\<close>.\<close>

definition mcp_client_tool_content :: "call_tool_result \<Rightarrow> string" where
  "mcp_client_tool_content result = py_str_list (map block_repr (content result))"

section \<open>The conversation loop\<close>

text \<open>
  The body of \<^verbatim>\<open>for tool_call in assistant_message.tool_calls\<close> in \<^verbatim>\<open>chat\<close>.
  The two clients differ only in how the text of a successful result is extracted, which is
  the parameter \<open>rt\<close>. The list \<^verbatim>\<open>messages\<close> is mutated in place, so it is
  returned also when an exception leaves the function.
\<close>

definition process_tool_call ::
  "(call_tool_result \<Rightarrow> string) \<Rightarrow> ('w, 'j) env \<Rightarrow> 'w \<Rightarrow> message list \<Rightarrow> tool_call
     \<Rightarrow> (py_exception + unit) \<times> message list \<times> 'w" where
  "process_tool_call rt E w messages tc =
     (case json_loads E (tc_arguments tc) of
        None \<Rightarrow> (Inl JSONDecodeError, messages, w)
      | Some tool_args \<Rightarrow>
          (case call_tool E w (tc_name tc) tool_args of
             (outcome, w') \<Rightarrow>
               let result_text =
                     (case outcome of
                        Returned result \<Rightarrow> rt result
                      | Raised e \<Rightarrow> ''Error: '' @ e)
               in (Inr (), messages @ [ToolMessage (tc_id tc) (tc_name tc) result_text], w')))"

fun process_tool_calls ::
  "(call_tool_result \<Rightarrow> string) \<Rightarrow> ('w, 'j) env \<Rightarrow> 'w \<Rightarrow> message list \<Rightarrow> tool_call list
     \<Rightarrow> (py_exception + unit) \<times> message list \<times> 'w" where
  "process_tool_calls rt E w messages [] = (Inr (), messages, w)"
| "process_tool_calls rt E w messages (tc # tcs) =
     (case process_tool_call rt E w messages tc of
        (Inl e, messages', w') \<Rightarrow> (Inl e, messages', w')
      | (Inr u, messages', w') \<Rightarrow> process_tool_calls rt E w' messages' tcs)"

text \<open>
  \<^verbatim>\<open>not assistant_message.tool_calls\<close>: the field is \<^verbatim>\<open>None\<close> or an empty list.
\<close>

definition the_tool_calls :: "assistant_message \<Rightarrow> tool_call list" where
  "the_tool_calls a = (case am_tool_calls a of None \<Rightarrow> [] | Some tcs \<Rightarrow> tcs)"

text \<open>\<^verbatim>\<open>assistant_message.content or ""\<close>.\<close>

definition content_or_empty :: "assistant_message \<Rightarrow> string" where
  "content_or_empty a = (case am_content a of None \<Rightarrow> [] | Some c \<Rightarrow> c)"

text \<open>
  The \<^verbatim>\<open>while True\<close> loop of \<^verbatim>\<open>chat\<close>. It runs for as long as the LLM keeps
  asking for tools, so the model takes fuel: one unit for each completion. \<open>None\<close> means the
  fuel ran out before the loop returned.
\<close>

fun chat_loop ::
  "(call_tool_result \<Rightarrow> string) \<Rightarrow> nat \<Rightarrow> ('w, 'j) env \<Rightarrow> 'w \<Rightarrow> message list
     \<Rightarrow> ((py_exception + string) \<times> message list \<times> 'w) option" where
  "chat_loop rt 0 E w messages = None"
| "chat_loop rt (Suc n) E w messages =
     (case complete E w messages of
        (Inl e, w1) \<Rightarrow> Some (Inl e, messages, w1)
      | (Inr a, w1) \<Rightarrow>
          let messages1 = messages @ [AssistantMessage a] in
          if the_tool_calls a = [] then Some (Inr (content_or_empty a), messages1, w1)
          else
            (case process_tool_calls rt E w1 messages1 (the_tool_calls a) of
               (Inl e, messages2, w2) \<Rightarrow> Some (Inl e, messages2, w2)
             | (Inr u, messages2, w2) \<Rightarrow> chat_loop rt n E w2 messages2))"

definition chat ::
  "(call_tool_result \<Rightarrow> string) \<Rightarrow> nat \<Rightarrow> ('w, 'j) env \<Rightarrow> 'w \<Rightarrow> message list \<Rightarrow> string
     \<Rightarrow> ((py_exception + string) \<times> message list \<times> 'w) option" where
  "chat rt n E w messages user_question =
     chat_loop rt n E w (messages @ [UserMessage user_question])"

definition netflix_chat ::
  "nat \<Rightarrow> ('w, 'j) env \<Rightarrow> 'w \<Rightarrow> message list \<Rightarrow> string
     \<Rightarrow> ((py_exception + string) \<times> message list \<times> 'w) option" where
  "netflix_chat = chat netflix_result_text"

definition puppy_chat ::
  "nat \<Rightarrow> ('w, 'j) env \<Rightarrow> 'w \<Rightarrow> message list \<Rightarrow> string
     \<Rightarrow> ((py_exception + string) \<times> message list \<times> 'w) option" where
  "puppy_chat = chat puppy_result_text"

text \<open>
  A tool message answers a tool-call request when it carries the request's id and name.
\<close>

definition answers :: "tool_call \<Rightarrow> message \<Rightarrow> bool" where
  "answers tc m = (case m of ToolMessage i n c \<Rightarrow> i = tc_id tc \<and> n = tc_name tc | _ \<Rightarrow> False)"

section \<open>An example run\<close>

text \<open>
  The scenario of two requests in one assistant turn: \<open>a\<close> succeeds and \<open>b\<close> fails.
  The state of the world counts the completions made so far. In the world 7 the LLM emits
  a request whose arguments do not decode.
\<close>

definition call_a :: tool_call where
  "call_a = \<lparr>tc_id = ''a'', tc_name = ''get_top_movies'', tc_arguments = ''{}''\<rparr>"

definition call_b :: tool_call where
  "call_b = \<lparr>tc_id = ''b'', tc_name = ''add_to_favorites'', tc_arguments = ''{}''\<rparr>"

definition call_c :: tool_call where
  "call_c = \<lparr>tc_id = ''c'', tc_name = ''get_favorites'', tc_arguments = ''{''\<rparr>"

definition asks_two :: assistant_message where
  "asks_two = \<lparr>am_content = None, am_tool_calls = Some [call_a, call_b]\<rparr>"

definition asks_malformed :: assistant_message where
  "asks_malformed = \<lparr>am_content = None, am_tool_calls = Some [call_a, call_c, call_b]\<rparr>"

definition final_answer :: assistant_message where
  "final_answer = \<lparr>am_content = Some ''done'', am_tool_calls = None\<rparr>"

definition top_movies :: call_tool_result where
  "top_movies =
     \<lparr>content =
        [\<lparr>block_text = Some ''Glass Onion'',
          block_repr = ''TextContent(type='text', text='Glass Onion', annotations=None, meta=None)''\<rparr>],
      result_str = ''CallToolResult(content=[TextContent(type='text', text='Glass Onion', annotations=None, meta=None)], structured_content=None, meta=None, data=None, is_error=False)''\<rparr>"

definition example_env :: "(nat, string) env" where
  "example_env =
     \<lparr>complete = (\<lambda>w h. (Inr (if w = 0 then asks_two else if w = 7 then asks_malformed
                                 else final_answer), Suc w)),
      call_tool = (\<lambda>w name args.
         (if name = ''get_top_movies'' then Returned top_movies else Raised ''Movie not found'', w)),
      json_loads = (\<lambda>s. if s = ''{'' then None else Some s),
      max_history = 10,
      input_line = (\<lambda>w. (Inr ''hello'', w))\<rparr>"

definition example_history :: "message list" where
  "example_history = [SystemMessage (Some ''You are a helpful assistant.''), UserMessage ''add the top movie'']"

section \<open>Python strings and integers\<close>

text \<open>
  The characters that \<^verbatim>\<open>str.isspace\<close> accepts, among the code points below 256.
\<close>

definition py_isspace :: "char \<Rightarrow> bool" where
  "py_isspace c =
     (let n = (of_char c :: nat)
      in (9 \<le> n \<and> n \<le> 13) \<or> (28 \<le> n \<and> n \<le> 32) \<or> n = 133 \<or> n = 160)"

text \<open>\<^verbatim>\<open>s.strip()\<close>.\<close>

definition py_strip :: "string \<Rightarrow> string" where
  "py_strip s = rev (dropWhile py_isspace (rev (dropWhile py_isspace s)))"

definition is_digit :: "char \<Rightarrow> bool" where
  "is_digit c = (let n = (of_char c :: nat) in 48 \<le> n \<and> n \<le> 57)"

definition digit_value :: "char \<Rightarrow> int" where
  "digit_value c = int (of_char c) - 48"

text \<open>
  The digits of a decimal literal as \<^verbatim>\<open>int(s)\<close> accepts them: digits, with single
  underscores allowed between two digits.
\<close>

fun digits_ok :: "string \<Rightarrow> bool" where
  "digits_ok [] = False"
| "digits_ok [c] = is_digit c"
| "digits_ok (c # d # cs) =
     (is_digit c \<and> (if d = CHR ''_'' then cs \<noteq> [] \<and> digits_ok cs else digits_ok (d # cs)))"

text \<open>
  The interpreter's default limit on the number of digits of a decimal string
  (\<^verbatim>\<open>sys.get_int_max_str_digits()\<close>), beyond which \<^verbatim>\<open>int(s)\<close> raises
  \<^verbatim>\<open>ValueError\<close>.
\<close>

definition int_max_str_digits :: nat where
  "int_max_str_digits = 4300"

text \<open>
  \<^verbatim>\<open>int(s)\<close> for a string: \<open>None\<close> when it raises \<^verbatim>\<open>ValueError\<close>.
\<close>

definition py_int :: "string \<Rightarrow> int option" where
  "py_int s =
     (let t = py_strip s;
          negative = (t \<noteq> [] \<and> hd t = CHR ''-'');
          body = (if t \<noteq> [] \<and> (hd t = CHR ''-'' \<or> hd t = CHR ''+'') then tl t else t);
          ds = filter is_digit body
      in if digits_ok body \<and> length ds \<le> int_max_str_digits
         then Some ((if negative then - 1 else 1) * foldl (\<lambda>acc c. 10 * acc + digit_value c) 0 ds)
         else None)"

text \<open>\<^verbatim>\<open>str(n)\<close> for an integer.\<close>

definition digit_char :: "nat \<Rightarrow> char" where
  "digit_char n = ''0123456789'' ! n"

fun str_nat :: "nat \<Rightarrow> string" where
  "str_nat n = (if n < 10 then [digit_char n] else str_nat (n div 10) @ [digit_char (n mod 10)])"

declare str_nat.simps [simp del]

definition py_str_int :: "int \<Rightarrow> string" where
  "py_str_int i = (if i < 0 then ''-'' @ str_nat (nat (- i)) else str_nat (nat i))"

section \<open>The terminal\<close>

text \<open>
  The elicitation handlers talk to the user through \<^verbatim>\<open>print\<close> and \<^verbatim>\<open>input\<close>. The
  terminal holds the lines the user is going to type and everything written so far.
\<close>

record terminal =
  pending :: "string list"
  printed :: string

text \<open>\<^verbatim>\<open>print(s)\<close> writes \<open>s\<close> and a newline.\<close>

definition py_print :: "string \<Rightarrow> terminal \<Rightarrow> terminal" where
  "py_print s t = t\<lparr>printed := printed t @ s @ newline\<rparr>"

text \<open>
  \<^verbatim>\<open>input(prompt)\<close> writes the prompt and reads one line, without its newline. At the
  end of the input it raises \<^verbatim>\<open>EOFError\<close>.
\<close>

definition py_input :: "string \<Rightarrow> terminal \<Rightarrow> (py_exception + string) \<times> terminal" where
  "py_input prompt t =
     (case pending t of
        [] \<Rightarrow> (Inl EOFError, t\<lparr>printed := printed t @ prompt\<rparr>)
      | line # rest \<Rightarrow> (Inr line, t\<lparr>pending := rest, printed := printed t @ prompt\<rparr>))"

section \<open>The elicitation handlers\<close>

text \<open>
  The shape of the answer that the server expects. The library turns it into a dataclass
  with one field \<^verbatim>\<open>value\<close> and passes that class as \<^verbatim>\<open>response_type\<close>, or
  passes \<^verbatim>\<open>None\<close> when no data is expected.
\<close>

datatype shape = Boolean | Integer | EnumeratedStringSet "string list" | FreeString

datatype elicit_action = Accept | Decline | Cancel

text \<open>
  What a handler returns: \<^verbatim>\<open>ElicitResult(action=...)\<close>, or the instance
  \<^verbatim>\<open>response_type(value=v)\<close>. A dataclass stores the value it is given as it is.
\<close>

datatype elicit_response = ElicitResult elicit_action | ResponseValue shape string

text \<open>\<^verbatim>\<open>fastmcp_netflix/client/handlers/elicitation.py\<close>.\<close>

definition netflix_elicitation_handler ::
  "string \<Rightarrow> shape option \<Rightarrow> terminal \<Rightarrow> (py_exception + elicit_response) \<times> terminal" where
  "netflix_elicitation_handler message response_type t =
     (case response_type of
        None \<Rightarrow> (Inr (ElicitResult Accept), t)
      | Some rtype \<Rightarrow>
          (case py_input (''[Server asks]: '' @ message @ newline @ ''> Your choice: '')
                  (py_print [] t) of
             (Inl e, t') \<Rightarrow> (Inl e, t')
           | (Inr user_input, t') \<Rightarrow>
               if py_strip user_input = [] then (Inr (ElicitResult Decline), t')
               else (Inr (ResponseValue rtype (py_strip user_input)), t')))"

text \<open>
  Values of a JSON document, as far as the handlers and tools read them, and
  \<^verbatim>\<open>str(v)\<close> of such a value.
\<close>

datatype json = JNone | JBool bool | JInt int | JStr string

fun py_str :: "json \<Rightarrow> string" where
  "py_str JNone = ''None''"
| "py_str (JBool b) = (if b then ''True'' else ''False'')"
| "py_str (JInt i) = py_str_int i"
| "py_str (JStr s) = s"

text \<open>
  \<^verbatim>\<open>params.requestedSchema\<close>, as far as the handler reads it: the values of its
  \<^verbatim>\<open>"properties"\<close> in order, each a dictionary; \<open>None\<close> when the schema is absent
  or has no such key.
\<close>

type_synonym property_schema = "string \<rightharpoonup> json"

record elicit_request_params =
  requested_properties :: "property_schema list option"

text \<open>Lines 25-30 of \<^verbatim>\<open>puppy_guide/client/handlers/elicitation.py\<close>.\<close>

definition schema_options :: "elicit_request_params \<Rightarrow> string list" where
  "schema_options params =
     (let properties = (case requested_properties params of None \<Rightarrow> [] | Some ps \<Rightarrow> ps)
      in map (\<lambda>option. py_str (the (option ''const'')))
           (filter (\<lambda>option. option ''const'' \<noteq> None) properties))"

text \<open>Lines 39-40: one menu line for each option, numbered from \<open>i\<close>.\<close>

fun print_menu :: "nat \<Rightarrow> string list \<Rightarrow> terminal \<Rightarrow> terminal" where
  "print_menu i [] t = t"
| "print_menu i (option # options) t =
     print_menu (Suc i) options (py_print (''  '' @ str_nat i @ ''. '' @ option) t)"

text \<open>Lines 35-41: the question, the numbered menu and its last entry, the abandon entry.\<close>

definition print_question :: "string \<Rightarrow> string list \<Rightarrow> terminal \<Rightarrow> terminal" where
  "print_question message options t =
     (let t1 = py_print [] t;
          t2 = py_print (''[Server asks]: '' @ message) t1;
          t3 = py_print [] t2;
          t4 = py_print ''Please enter the number of your choice:'' t3;
          t5 = print_menu 1 options t4
      in py_print (''  '' @ str_nat (length options + 1) @ ''. Abandon or quit'') t5)"

text \<open>
  Lines 45-60: what the handler answers to the line \<open>raw\<close>, already stripped. Python
  indexes \<^verbatim>\<open>options[choice - 1]\<close> with \<open>choice \<ge> 1\<close> here, so the index is not
  negative, and it raises \<^verbatim>\<open>IndexError\<close> when the index is not below the length.
\<close>

definition puppy_answer :: "shape option \<Rightarrow> string list \<Rightarrow> string \<Rightarrow> py_exception + elicit_response" where
  "puppy_answer response_type options raw =
     (case py_int raw of
        None \<Rightarrow> Inr (ElicitResult Decline)
      | Some choice \<Rightarrow>
          if choice < 1 \<or> choice = int (length options) + 1
          then Inr (ElicitResult Decline)
          else
            (case response_type of
               None \<Rightarrow> Inr (ElicitResult Accept)
             | Some rtype \<Rightarrow>
                 if nat (choice - 1) < length options
                 then Inr (ResponseValue rtype (options ! nat (choice - 1)))
                 else Inl IndexError))"

text \<open>
  \<^verbatim>\<open>puppy_guide/client/handlers/elicitation.py\<close>. The schema is read inside a
  \<^verbatim>\<open>try\<close> block that falls back to no options; reading a schema of the modelled form
  raises nothing.
\<close>

definition puppy_elicitation_handler ::
  "string \<Rightarrow> shape option \<Rightarrow> elicit_request_params \<Rightarrow> terminal
     \<Rightarrow> (py_exception + elicit_response) \<times> terminal" where
  "puppy_elicitation_handler message response_type params t =
     (let options = schema_options params
      in case py_input ''> '' (print_question message options t) of
           (Inl e, t') \<Rightarrow> (Inl e, t')
         | (Inr line, t') \<Rightarrow> (puppy_answer response_type options (py_strip line), t'))"

text \<open>A request with the two options \<^verbatim>\<open>labrador\<close> and \<^verbatim>\<open>poodle\<close>.\<close>

definition breed_params :: elicit_request_params where
  "breed_params = \<lparr>requested_properties =
     Some [[''const'' \<mapsto> JStr ''labrador''], [''const'' \<mapsto> JStr ''poodle'']]\<rparr>"

text \<open>A terminal on which the user is about to type one line.\<close>

definition user_types :: "string \<Rightarrow> terminal" where
  "user_types line = \<lparr>pending = [line], printed = []\<rparr>"

section \<open>The interactive loop\<close>

text \<open>
  \<^verbatim>\<open>s.lower()\<close>, for the code points below 256: the letters A-Z and the accented
  capitals of Latin-1.
\<close>

definition py_lower_char :: "char \<Rightarrow> char" where
  "py_lower_char c =
     (let n = (of_char c :: nat)
      in if (65 \<le> n \<and> n \<le> 90) \<or> (192 \<le> n \<and> n \<le> 222 \<and> n \<noteq> 215)
         then char_of (n + 32) else c)"

definition py_lower :: "string \<Rightarrow> string" where
  "py_lower s = map py_lower_char s"

datatype control = Continue | Break

text \<open>
  \<^verbatim>\<open>[messages[0]]\<close>; indexing an empty list raises \<^verbatim>\<open>IndexError\<close>.
\<close>

definition first_only :: "message list \<Rightarrow> py_exception + message list" where
  "first_only messages = (case messages of [] \<Rightarrow> Inl IndexError | m # rest \<Rightarrow> Inr [m])"

text \<open>
  The end of the \<^verbatim>\<open>try\<close> block in both clients:
  \<^verbatim>\<open>if len(messages) > MAX_HISTORY + 1: messages = [messages[0]]\<close>.
\<close>

definition bound_history :: "('w, 'j) env \<Rightarrow> message list \<Rightarrow> py_exception + message list" where
  "bound_history E messages =
     (if int (length messages) > max_history E + 1 then first_only messages else Inr messages)"

text \<open>
  \<^verbatim>\<open>except KeyboardInterrupt: break\<close>: the interrupt ends the loop, any other
  exception leaves \<^verbatim>\<open>run_repl\<close>.
\<close>

definition leave_try ::
  "py_exception \<Rightarrow> message list \<Rightarrow> 'w \<Rightarrow> ((py_exception + control) \<times> message list \<times> 'w) option" where
  "leave_try e messages w =
     (if e = KeyboardInterrupt then Some (Inr Break, messages, w) else Some (Inl e, messages, w))"

definition after_chat ::
  "('w, 'j) env \<Rightarrow> ((py_exception + string) \<times> message list \<times> 'w) option
     \<Rightarrow> ((py_exception + control) \<times> message list \<times> 'w) option" where
  "after_chat E r =
     (case r of
        None \<Rightarrow> None
      | Some (Inl e, messages', w') \<Rightarrow> leave_try e messages' w'
      | Some (Inr answer, messages', w') \<Rightarrow>
          (case bound_history E messages' of
             Inl e \<Rightarrow> leave_try e messages' w'
           | Inr messages'' \<Rightarrow> Some (Inr Continue, messages'', w')))"

text \<open>
  One iteration of \<^verbatim>\<open>while True\<close> in \<^verbatim>\<open>run_repl\<close> of
  \<^verbatim>\<open>fastmcp_netflix/client/main.py\<close>. The fuel \<open>n\<close> is that of \<^verbatim>\<open>chat\<close>. What the
  loop prints is left out.
\<close>

definition netflix_repl_iteration ::
  "nat \<Rightarrow> ('w, 'j) env \<Rightarrow> 'w \<Rightarrow> message list
     \<Rightarrow> ((py_exception + control) \<times> message list \<times> 'w) option" where
  "netflix_repl_iteration n E w messages =
     (case input_line E w of
        (Inl e, w1) \<Rightarrow> leave_try e messages w1
      | (Inr line, w1) \<Rightarrow>
          let user_input = py_strip line in
          if user_input = [] then Some (Inr Continue, messages, w1)
          else if py_lower user_input \<in> set [''quit'', ''exit'', ''q'']
          then Some (Inr Break, messages, w1)
          else if py_lower user_input = ''clear''
          then (case first_only messages of
                  Inl e \<Rightarrow> leave_try e messages w1
                | Inr messages' \<Rightarrow> Some (Inr Continue, messages', w1))
          else after_chat E (netflix_chat n E w1 messages user_input))"

text \<open>The same for \<^verbatim>\<open>puppy_guide/client/main.py\<close>, which has no commands.\<close>

definition puppy_repl_iteration ::
  "nat \<Rightarrow> ('w, 'j) env \<Rightarrow> 'w \<Rightarrow> message list
     \<Rightarrow> ((py_exception + control) \<times> message list \<times> 'w) option" where
  "puppy_repl_iteration n E w messages =
     (case input_line E w of
        (Inl e, w1) \<Rightarrow> leave_try e messages w1
      | (Inr line, w1) \<Rightarrow> after_chat E (puppy_chat n E w1 messages (py_strip line)))"

datatype client = Netflix | PuppyGuide

fun repl_iteration ::
  "client \<Rightarrow> nat \<Rightarrow> ('w, 'j) env \<Rightarrow> 'w \<Rightarrow> message list
     \<Rightarrow> ((py_exception + control) \<times> message list \<times> 'w) option" where
  "repl_iteration Netflix = netflix_repl_iteration"
| "repl_iteration PuppyGuide = puppy_repl_iteration"

text \<open>
  The \<^verbatim>\<open>while True\<close> loop of \<^verbatim>\<open>run_repl\<close>, with fuel \<open>k\<close> for its iterations.
\<close>

fun repl_loop ::
  "client \<Rightarrow> nat \<Rightarrow> nat \<Rightarrow> ('w, 'j) env \<Rightarrow> 'w \<Rightarrow> message list
     \<Rightarrow> ((py_exception + unit) \<times> message list \<times> 'w) option" where
  "repl_loop c 0 n E w messages = None"
| "repl_loop c (Suc k) n E w messages =
     (case repl_iteration c n E w messages of
        None \<Rightarrow> None
      | Some (Inl e, messages', w') \<Rightarrow> Some (Inl e, messages', w')
      | Some (Inr Break, messages', w') \<Rightarrow> Some (Inr (), messages', w')
      | Some (Inr Continue, messages', w') \<Rightarrow> repl_loop c k n E w' messages')"

definition run_repl ::
  "client \<Rightarrow> nat \<Rightarrow> nat \<Rightarrow> ('w, 'j) env \<Rightarrow> 'w \<Rightarrow> message
     \<Rightarrow> ((py_exception + unit) \<times> message list \<times> 'w) option" where
  "run_repl c k n E w system_message = repl_loop c k n E w [system_message]"

text \<open>
  The histories that the loop holds between two turns, that is at the head of
  \<^verbatim>\<open>while True\<close>, when it starts from the system message \<open>sys\<close> in the world \<open>w0\<close>.
\<close>

inductive between_turns ::
  "client \<Rightarrow> ('w, 'j) env \<Rightarrow> message \<Rightarrow> 'w \<Rightarrow> message list \<Rightarrow> 'w \<Rightarrow> bool"
  for c :: client and E :: "('w, 'j) env" and sys :: message and w0 :: 'w where
  start: "between_turns c E sys w0 [sys] w0"
| turn: "between_turns c E sys w0 messages w \<Longrightarrow>
         repl_iteration c n E w messages = Some (Inr Continue, messages', w') \<Longrightarrow>
         between_turns c E sys w0 messages' w'"

definition talkative_env :: "(nat, string) env" where
  "talkative_env = example_env\<lparr>complete := (\<lambda>w h. (Inr final_answer, Suc w)),
      input_line := (\<lambda>w. (if w < 7 then Inr ''hello'' else Inr ''quit'', w))\<rparr>"

section \<open>The favorites tool\<close>

text \<open>
  \<^verbatim>\<open>add_to_favorites\<close> in \<^verbatim>\<open>fastmcp_netflix/server/components/tools.py\<close>. A row of the
  table \<^verbatim>\<open>movie\<close> has an integer primary key and a title that may be null.
\<close>

record movie =
  movie_id :: int
  movie_title :: "string option"

text \<open>
  The two queries that the tool sends to the database, which is outside the repository:
  \<^verbatim>\<open>db.query(Movie).filter(Movie.id == movie_id).first()\<close> and
  \<^verbatim>\<open>db.query(Movie).filter(Movie.title.ilike(title)).first()\<close>.
\<close>

record database =
  first_by_id :: "int \<Rightarrow> movie option"
  first_by_title :: "string \<Rightarrow> movie option"

text \<open>
  The session state maps a key to a stored value. The server stores under
  \<^verbatim>\<open>"favorites"\<close> a list of dictionaries.
\<close>

type_synonym favorite = "string \<rightharpoonup> json"

type_synonym session_state = "string \<rightharpoonup> favorite list"

text \<open>The outcome of a tool: its return value, or the message of a \<^verbatim>\<open>ToolError\<close>.\<close>

datatype tool_outcome = ToolReturn string | ToolError string

text \<open>\<^verbatim>\<open>f"{movie.title}"\<close>: a null title is rendered as \<^verbatim>\<open>None\<close>.\<close>

definition title_json :: "movie \<Rightarrow> json" where
  "title_json m = (case movie_title m of None \<Rightarrow> JNone | Some t \<Rightarrow> JStr t)"

text \<open>Lines 204-207: the lookup by id when \<^verbatim>\<open>movie_id\<close> is truthy, else by title.\<close>

definition lookup_movie :: "database \<Rightarrow> string option \<Rightarrow> int option \<Rightarrow> movie option" where
  "lookup_movie db title mid =
     (if mid \<noteq> None \<and> mid \<noteq> Some 0 then first_by_id db (the mid)
      else first_by_title db (the title))"

text \<open>\<^verbatim>\<open>await ctx.get_state("favorites") or []\<close>.\<close>

definition get_favorites_list :: "session_state \<Rightarrow> favorite list" where
  "get_favorites_list state = (case state ''favorites'' of None \<Rightarrow> [] | Some favorites \<Rightarrow> favorites)"

definition apostrophe :: string where
  "apostrophe = [CHR 0x27]"

definition add_to_favorites ::
  "database \<Rightarrow> string option \<Rightarrow> int option \<Rightarrow> session_state \<Rightarrow> tool_outcome \<times> session_state" where
  "add_to_favorites db title mid state =
     (if (title = None \<or> title = Some []) \<and> (mid = None \<or> mid = Some 0)
      then (ToolError (''Must provide either 'title' or 'movie_id'' @ apostrophe), state)
      else
        (case lookup_movie db title mid of
           None \<Rightarrow> (ToolError ''Movie not found. Use search_movies to find it first.'', state)
         | Some m \<Rightarrow>
             let favorites = get_favorites_list state in
             if list_ex (\<lambda>fav. fav ''id'' = Some (JInt (movie_id m))) favorites
             then (ToolReturn (apostrophe @ py_str (title_json m) @ apostrophe
                                @ '' is already in your favorites''),
                   state)
             else
               let favorites' = favorites @ [[''id'' \<mapsto> JInt (movie_id m), ''title'' \<mapsto> title_json m]]
               in (ToolReturn (''Added '' @ apostrophe @ py_str (title_json m) @ apostrophe
                                @ '' to favorites. You now have ''
                                @ str_nat (length favorites') @ '' favorite(s).''),
                   state(''favorites'' \<mapsto> favorites'))))"

text \<open>A sequence of calls of the tool in one session.\<close>

fun add_all ::
  "database \<Rightarrow> (string option \<times> int option) list \<Rightarrow> session_state \<Rightarrow> session_state" where
  "add_all db [] state = state"
| "add_all db ((title, mid) # calls) state = add_all db calls (snd (add_to_favorites db title mid state))"

definition favorite_ids :: "session_state \<Rightarrow> json option list" where
  "favorite_ids state = map (\<lambda>fav. fav ''id'') (get_favorites_list state)"

definition example_db :: database where
  "example_db =
     \<lparr>first_by_id = (\<lambda>i. if i = 7 then Some \<lparr>movie_id = 7, movie_title = Some ''Glass Onion''\<rparr> else None),
      first_by_title = (\<lambda>t. if t = ''glass onion'' then Some \<lparr>movie_id = 7, movie_title = Some ''Glass Onion''\<rparr> else None)\<rparr>"

section \<open>The text payload, as the specification words it\<close>

text \<open>
  The specification asks for the text-bearing items of the content sequence, in their
  order, separated by newlines, with the other items skipped.
\<close>

fun text_items :: "content_block list \<Rightarrow> string list" where
  "text_items [] = []"
| "text_items (b # bs) = (case block_text b of None \<Rightarrow> text_items bs | Some t \<Rightarrow> t # text_items bs)"

definition text_payload :: "call_tool_result \<Rightarrow> string" where
  "text_payload result =
     (case text_items (content result) of
        [] \<Rightarrow> []
      | t # ts \<Rightarrow> foldl (\<lambda>acc x. acc @ newline @ x) t ts)"

section \<open>More examples, and the invariant of the interactive loop\<close>

definition no_content :: call_tool_result where
  "no_content = \<lparr>content = [], result_str = ''CallToolResult(content=[], structured_content=None, meta=None, data=None, is_error=False)''\<rparr>"

definition glass_onion :: movie where
  "glass_onion = \<lparr>movie_id = 7, movie_title = Some ''Glass Onion''\<rparr>"

definition one_favorite :: session_state where
  "one_favorite = [''favorites'' \<mapsto> [[''id'' \<mapsto> JInt 7, ''title'' \<mapsto> JStr ''Glass Onion'']]]"

text \<open>
  The request that the puppy_guide server sends with one suggested breed: the schema has one
  property, whose \<^verbatim>\<open>const\<close> is the suggestion.
\<close>

definition suggestion_params :: elicit_request_params where
  "suggestion_params =
     \<lparr>requested_properties = Some [[''const'' \<mapsto> JStr ''labrador'', ''type'' \<mapsto> JStr ''string'']]\<rparr>"

text \<open>
  The invariant of the loop: the history starts with the system message, and it is within
  the bound or it is the system message alone.
\<close>

definition history_ok :: "('w, 'j) env \<Rightarrow> message \<Rightarrow> message list \<Rightarrow> bool" where
  "history_ok E sys messages =
     (messages \<noteq> [] \<and> hd messages = sys
      \<and> (int (length messages) \<le> max_history E + 1 \<or> messages = [sys]))"

text \<open>
  A session with \<^verbatim>\<open>MAX_HISTORY = 10\<close> in which every turn is one user message and one
  final answer: the history after \<open>k\<close> such turns, when no reset has taken place.
\<close>

definition example_system :: message where
  "example_system = SystemMessage (Some ''You are a helpful Netflix assistant.'')"

fun exchanged :: "nat \<Rightarrow> message list" where
  "exchanged 0 = [example_system]"
| "exchanged (Suc k) = exchanged k @ [UserMessage ''hello'', AssistantMessage final_answer]"

section \<open>The answers that a round of requests is due\<close>

text \<open>
  A request decodes when \<^verbatim>\<open>json.loads\<close> accepts its arguments.
\<close>

definition decodes :: "('w, 'j) env \<Rightarrow> tool_call \<Rightarrow> bool" where
  "decodes E tc = (json_loads E (tc_arguments tc) \<noteq> None)"

text \<open>
  The tool messages that requests which decode are due, in the order of the requests, and
  the world after them: each request is invoked in the world that the one before it left,
  and its message carries its id, its name and the text of its outcome, which for a
  failure is \<^verbatim>\<open>"Error: "\<close> followed by the cause.
\<close>

fun expected_answers ::
  "(call_tool_result \<Rightarrow> string) \<Rightarrow> ('w, 'j) env \<Rightarrow> 'w \<Rightarrow> tool_call list \<Rightarrow> message list \<times> 'w" where
  "expected_answers rt E w [] = ([], w)"
| "expected_answers rt E w (tc # tcs) =
     (case call_tool E w (tc_name tc) (the (json_loads E (tc_arguments tc))) of
        (outcome, w') \<Rightarrow>
          (case expected_answers rt E w' tcs of
             (ms, w'') \<Rightarrow>
               (ToolMessage (tc_id tc) (tc_name tc)
                  (case outcome of Returned result \<Rightarrow> rt result | Raised e \<Rightarrow> ''Error: '' @ e) # ms,
                w'')))"

text \<open>
  A turn in which the LLM asks for \<open>b\<close>, whose invocation fails, and then for \<open>c\<close>, whose
  arguments do not decode.
\<close>

definition asks_failing_then_malformed :: assistant_message where
  "asks_failing_then_malformed = \<lparr>am_content = None, am_tool_calls = Some [call_b, call_c]\<rparr>"

definition unlucky_env :: "(nat, string) env" where
  "unlucky_env = example_env\<lparr>complete := (\<lambda>w h. (Inr asks_failing_then_malformed, Suc w))\<rparr>"


section \<open>Properties of the conversation loop\<close>

lemma process_tool_call_cases:
  "(json_loads E (tc_arguments tc) = None \<and>
      process_tool_call rt E w messages tc = (Inl JSONDecodeError, messages, w))
   \<or> (\<exists>body w'. json_loads E (tc_arguments tc) \<noteq> None \<and> process_tool_call rt E w messages tc =
          (Inr (), messages @ [ToolMessage (tc_id tc) (tc_name tc) body], w'))"
  by (auto simp: process_tool_call_def Let_def split: option.splits prod.splits)

lemma process_tool_call_decoded:
  assumes "json_loads E (tc_arguments tc) \<noteq> None"
  shows "\<exists>body w'. process_tool_call rt E w messages tc =
          (Inr (), messages @ [ToolMessage (tc_id tc) (tc_name tc) body], w')"
  using assms process_tool_call_cases[of E tc rt w messages] by auto

lemma process_tool_calls_decoded:
  assumes "\<forall>t \<in> set tcs. json_loads E (tc_arguments t) \<noteq> None"
  shows "\<exists>results w'. process_tool_calls rt E w messages tcs = (Inr (), messages @ results, w')
           \<and> list_all2 answers tcs results"
  using assms
proof (induction tcs arbitrary: w messages)
  case Nil
  then show ?case by simp
next
  case (Cons tc tcs)
  from Cons.prems obtain body w1 where
    step: "process_tool_call rt E w messages tc =
             (Inr (), messages @ [ToolMessage (tc_id tc) (tc_name tc) body], w1)"
    using process_tool_call_decoded[of E tc rt w messages] by auto
  from Cons.prems have "\<forall>t \<in> set tcs. json_loads E (tc_arguments t) \<noteq> None" by simp
  from Cons.IH[OF this, of w1 "messages @ [ToolMessage (tc_id tc) (tc_name tc) body]"]
  obtain results w' where
    rest: "process_tool_calls rt E w1 (messages @ [ToolMessage (tc_id tc) (tc_name tc) body]) tcs
             = (Inr (), (messages @ [ToolMessage (tc_id tc) (tc_name tc) body]) @ results, w')"
    and ans: "list_all2 answers tcs results"
    by blast
  have "process_tool_calls rt E w messages (tc # tcs)
          = (Inr (), messages @ (ToolMessage (tc_id tc) (tc_name tc) body # results), w')"
    using step rest by simp
  moreover have "list_all2 answers (tc # tcs) (ToolMessage (tc_id tc) (tc_name tc) body # results)"
    using ans by (simp add: answers_def)
  ultimately show ?case by blast
qed

lemma process_tool_calls_append:
  "process_tool_calls rt E w messages (pre @ post) =
     (case process_tool_calls rt E w messages pre of
        (Inl e, messages', w') \<Rightarrow> (Inl e, messages', w')
      | (Inr u, messages', w') \<Rightarrow> process_tool_calls rt E w' messages' post)"
  by (induction pre arbitrary: w messages) (auto split: prod.splits sum.splits)

lemma process_tool_calls_outcome:
  "(\<exists>results w'. process_tool_calls rt E w messages tcs = (Inr (), messages @ results, w')
        \<and> list_all2 answers tcs results)
   \<or> (\<exists>results w'. process_tool_calls rt E w messages tcs = (Inl JSONDecodeError, messages @ results, w')
        \<and> length results < length tcs \<and> list_all2 answers (take (length results) tcs) results
        \<and> json_loads E (tc_arguments (tcs ! length results)) = None)"
proof (induction tcs arbitrary: w messages)
  case Nil
  then show ?case by simp
next
  case (Cons tc tcs)
  consider (bad) "json_loads E (tc_arguments tc) = None"
      "process_tool_call rt E w messages tc = (Inl JSONDecodeError, messages, w)"
    | (ok) body w1 where "process_tool_call rt E w messages tc =
          (Inr (), messages @ [ToolMessage (tc_id tc) (tc_name tc) body], w1)"
    using process_tool_call_cases[of E tc rt w messages] by (elim disjE exE conjE) auto
  then show ?case
  proof cases
    case bad
    then have "process_tool_calls rt E w messages (tc # tcs) = (Inl JSONDecodeError, messages @ [], w)"
      by simp
    with bad(1) show ?thesis by fastforce
  next
    case ok
    let ?m = "ToolMessage (tc_id tc) (tc_name tc) body"
    have a: "answers tc ?m" by (simp add: answers_def)
    from Cons.IH[of w1 "messages @ [?m]"] show ?thesis
    proof (elim disjE exE conjE)
      fix results w'
      assume "process_tool_calls rt E w1 (messages @ [?m]) tcs = (Inr (), (messages @ [?m]) @ results, w')"
        and "list_all2 answers tcs results"
      then have "process_tool_calls rt E w messages (tc # tcs) = (Inr (), messages @ (?m # results), w')
          \<and> list_all2 answers (tc # tcs) (?m # results)"
        using ok a by simp
      then show ?thesis by blast
    next
      fix results w'
      assume "process_tool_calls rt E w1 (messages @ [?m]) tcs = (Inl JSONDecodeError, (messages @ [?m]) @ results, w')"
        and "length results < length tcs" "list_all2 answers (take (length results) tcs) results"
        and "json_loads E (tc_arguments (tcs ! length results)) = None"
      then have "process_tool_calls rt E w messages (tc # tcs) = (Inl JSONDecodeError, messages @ (?m # results), w')
          \<and> length (?m # results) < length (tc # tcs)
          \<and> list_all2 answers (take (length (?m # results)) (tc # tcs)) (?m # results)
          \<and> json_loads E (tc_arguments ((tc # tcs) ! length (?m # results))) = None"
        using ok a by simp
      then show ?thesis by blast
    qed
  qed
qed

lemma chat_loop_round:
  assumes "complete E w messages = (Inr a, w1)" and "the_tool_calls a \<noteq> []"
    and "process_tool_calls rt E w1 (messages @ [AssistantMessage a]) (the_tool_calls a) = (Inr (), m2, w2)"
  shows "chat_loop rt (Suc n) E w messages = chat_loop rt n E w2 m2"
  using assms by (simp add: Let_def)

lemma chat_loop_abort:
  assumes "complete E w messages = (Inr a, w1)" and "the_tool_calls a \<noteq> []"
    and "process_tool_calls rt E w1 (messages @ [AssistantMessage a]) (the_tool_calls a) = (Inl e, m2, w2)"
  shows "chat_loop rt (Suc n) E w messages = Some (Inl e, m2, w2)"
  using assms by (simp add: Let_def)

lemma chat_loop_final:
  assumes "complete E w messages = (Inr a, w1)" and "the_tool_calls a = []"
  shows "chat_loop rt (Suc n) E w messages = Some (Inr (content_or_empty a), messages @ [AssistantMessage a], w1)"
  using assms by (simp add: Let_def)

subsection \<open>Facts about the example run\<close>

lemma ex_complete0: "complete example_env 0 example_history = (Inr asks_two, 1)"
  by (simp add: example_env_def)

lemma ex_complete7: "complete example_env 7 example_history = (Inr asks_malformed, 8)"
  by (simp add: example_env_def)

lemma ex_pre: "process_tool_calls netflix_result_text example_env 1
           (example_history @ [AssistantMessage asks_two]) [call_a]
         = (Inr (), example_history @ [AssistantMessage asks_two,
               ToolMessage ''a'' ''get_top_movies'' ''Glass Onion''], 1)"
  by (simp add: process_tool_call_def example_env_def call_a_def netflix_result_text_def top_movies_def)

subsection \<open>Every request is answered before the next completion\<close>

lemma expected_answers_answer: "list_all2 answers tcs (fst (expected_answers rt E w tcs))"
proof (induction tcs arbitrary: w)
  case Nil
  show ?case by simp
next
  case (Cons tc tcs)
  obtain outcome w' where
    c: "call_tool E w (tc_name tc) (the (json_loads E (tc_arguments tc))) = (outcome, w')"
    by (cases "call_tool E w (tc_name tc) (the (json_loads E (tc_arguments tc)))")
  obtain ms w'' where e: "expected_answers rt E w' tcs = (ms, w'')"
    by (cases "expected_answers rt E w' tcs")
  from Cons[of w'] e have "list_all2 answers tcs ms" by simp
  moreover have "answers tc (ToolMessage (tc_id tc) (tc_name tc) body)" for body
    by (simp add: answers_def)
  ultimately show ?case using c e by simp
qed

lemma length_expected_answers: "length (fst (expected_answers rt E w tcs)) = length tcs"
  using expected_answers_answer[of tcs rt E w] by (simp add: list_all2_lengthD)

lemma process_tool_calls_exact:
  assumes "\<forall>t \<in> set tcs. decodes E t"
  shows "process_tool_calls rt E w messages tcs
           = (Inr (), messages @ fst (expected_answers rt E w tcs), snd (expected_answers rt E w tcs))"
  using assms
proof (induction tcs arbitrary: w messages)
  case Nil
  show ?case by simp
next
  case (Cons tc tcs)
  from Cons.prems obtain args where args: "json_loads E (tc_arguments tc) = Some args"
    by (auto simp: decodes_def)
  obtain outcome w' where c: "call_tool E w (tc_name tc) args = (outcome, w')"
    by (cases "call_tool E w (tc_name tc) args")
  let ?m = "ToolMessage (tc_id tc) (tc_name tc)
              (case outcome of Returned result \<Rightarrow> rt result | Raised e \<Rightarrow> ''Error: '' @ e)"
  have step: "process_tool_call rt E w messages tc = (Inr (), messages @ [?m], w')"
    by (simp add: process_tool_call_def args c)
  from Cons.prems have "\<forall>t \<in> set tcs. decodes E t" by simp
  from Cons.IH[OF this, of w' "messages @ [?m]"] step args c
  show ?case by (simp split: prod.splits)
qed

lemma process_tool_calls_stops:
  assumes "\<not> (\<forall>t \<in> set tcs. decodes E t)"
  shows "process_tool_calls rt E w messages tcs
           = (Inl JSONDecodeError,
              messages @ fst (expected_answers rt E w (takeWhile (decodes E) tcs)),
              snd (expected_answers rt E w (takeWhile (decodes E) tcs)))
       \<and> length (takeWhile (decodes E) tcs) < length tcs"
proof -
  let ?pre = "takeWhile (decodes E) tcs"
  let ?post = "dropWhile (decodes E) tcs"
  from assms have ne: "?post \<noteq> []" by (simp add: dropWhile_eq_Nil_conv)
  then obtain tc rest where post: "?post = tc # rest" by (cases ?post) auto
  then have "\<not> decodes E tc" using hd_dropWhile[OF ne] by simp
  then have bad: "json_loads E (tc_arguments tc) = None" by (simp add: decodes_def)
  have pre: "\<forall>t \<in> set ?pre. decodes E t" by (auto dest: set_takeWhileD)
  have split: "tcs = ?pre @ tc # rest" using post takeWhile_dropWhile_id[of "decodes E" tcs] by simp
  let ?m = "messages @ fst (expected_answers rt E w ?pre)"
  let ?w = "snd (expected_answers rt E w ?pre)"
  have "process_tool_call rt E ?w ?m tc = (Inl JSONDecodeError, ?m, ?w)"
    by (simp add: process_tool_call_def bad)
  then have "process_tool_calls rt E w messages (?pre @ tc # rest) = (Inl JSONDecodeError, ?m, ?w)"
    by (simp add: process_tool_calls_append process_tool_calls_exact[OF pre])
  moreover have "length ?pre < length tcs"
    using arg_cong[OF split, of length] by simp
  ultimately show ?thesis using split by simp
qed

text \<open>
  Claim C1, as amended. Take an assistant message appended to the history that carries
  \<open>N \<ge> 1\<close> tool-call requests. When the arguments of all of them decode, the loop appends
  right after the assistant message exactly the \<open>N\<close> tool messages that the requests are
  due, one for each request with its id, its name and the text of its invocation, in the
  order of the requests, and only then goes on to the next completion, which it requests
  over that extended history. When the arguments of some request do not decode, the loop
  appends the tool messages of the requests before the first such request only, fewer than
  \<open>N\<close>, and the exception leaves \<^verbatim>\<open>chat\<close>: no further completion is requested. So the
  loop never asks for a completion over a history with an unanswered request.
\<close>

theorem chat_answers_every_tool_call:
  assumes "complete E w messages = (Inr a, w1)" and "the_tool_calls a \<noteq> []"
  shows "if \<forall>t \<in> set (the_tool_calls a). decodes E t
         then process_tool_calls rt E w1 (messages @ [AssistantMessage a]) (the_tool_calls a)
                = (Inr (),
                   messages @ [AssistantMessage a] @ fst (expected_answers rt E w1 (the_tool_calls a)),
                   snd (expected_answers rt E w1 (the_tool_calls a)))
            \<and> length (fst (expected_answers rt E w1 (the_tool_calls a))) = length (the_tool_calls a)
            \<and> list_all2 answers (the_tool_calls a) (fst (expected_answers rt E w1 (the_tool_calls a)))
            \<and> chat_loop rt (Suc n) E w messages
                = chat_loop rt n E (snd (expected_answers rt E w1 (the_tool_calls a)))
                    (messages @ [AssistantMessage a] @ fst (expected_answers rt E w1 (the_tool_calls a)))
         else chat_loop rt (Suc n) E w messages
                = Some (Inl JSONDecodeError,
                        messages @ [AssistantMessage a]
                          @ fst (expected_answers rt E w1 (takeWhile (decodes E) (the_tool_calls a))),
                        snd (expected_answers rt E w1 (takeWhile (decodes E) (the_tool_calls a))))
            \<and> length (takeWhile (decodes E) (the_tool_calls a)) < length (the_tool_calls a)"
proof (cases "\<forall>t \<in> set (the_tool_calls a). decodes E t")
  case True
  let ?m1 = "messages @ [AssistantMessage a]"
  have p: "process_tool_calls rt E w1 ?m1 (the_tool_calls a)
             = (Inr (), ?m1 @ fst (expected_answers rt E w1 (the_tool_calls a)),
                snd (expected_answers rt E w1 (the_tool_calls a)))"
    by (rule process_tool_calls_exact[OF True])
  from chat_loop_round[OF assms p, of n] p
  have "process_tool_calls rt E w1 (messages @ [AssistantMessage a]) (the_tool_calls a)
                = (Inr (),
                   messages @ [AssistantMessage a] @ fst (expected_answers rt E w1 (the_tool_calls a)),
                   snd (expected_answers rt E w1 (the_tool_calls a)))
            \<and> length (fst (expected_answers rt E w1 (the_tool_calls a))) = length (the_tool_calls a)
            \<and> list_all2 answers (the_tool_calls a) (fst (expected_answers rt E w1 (the_tool_calls a)))
            \<and> chat_loop rt (Suc n) E w messages
                = chat_loop rt n E (snd (expected_answers rt E w1 (the_tool_calls a)))
                    (messages @ [AssistantMessage a] @ fst (expected_answers rt E w1 (the_tool_calls a)))"
    by (simp add: length_expected_answers expected_answers_answer del: chat_loop.simps)
  then show ?thesis by (subst if_P[OF True])
next
  case False
  let ?m1 = "messages @ [AssistantMessage a]"
  from process_tool_calls_stops[OF False, of rt w1 ?m1]
  have p: "process_tool_calls rt E w1 ?m1 (the_tool_calls a)
           = (Inl JSONDecodeError,
              ?m1 @ fst (expected_answers rt E w1 (takeWhile (decodes E) (the_tool_calls a))),
              snd (expected_answers rt E w1 (takeWhile (decodes E) (the_tool_calls a))))"
    and l: "length (takeWhile (decodes E) (the_tool_calls a)) < length (the_tool_calls a)"
    by simp_all
  from chat_loop_abort[OF assms p, of n] l
  have "chat_loop rt (Suc n) E w messages
                = Some (Inl JSONDecodeError,
                        messages @ [AssistantMessage a]
                          @ fst (expected_answers rt E w1 (takeWhile (decodes E) (the_tool_calls a))),
                        snd (expected_answers rt E w1 (takeWhile (decodes E) (the_tool_calls a))))
            \<and> length (takeWhile (decodes E) (the_tool_calls a)) < length (the_tool_calls a)"
    by (simp del: chat_loop.simps)
  then show ?thesis by (subst if_not_P[OF False])
qed

lemma example_answers:
  "expected_answers netflix_result_text example_env 1 [call_a, call_b]
     = ([ToolMessage ''a'' ''get_top_movies'' ''Glass Onion'',
         ToolMessage ''b'' ''add_to_favorites'' ''Error: Movie not found''], 1)"
  by (simp add: example_env_def call_a_def call_b_def netflix_result_text_def top_movies_def)

theorem chat_answers_every_tool_call_witness:
  "complete example_env 0 example_history = (Inr asks_two, 1)
   \<and> the_tool_calls asks_two = [call_a, call_b]
   \<and> decodes example_env call_a \<and> decodes example_env call_b
   \<and> process_tool_calls netflix_result_text example_env 1
        (example_history @ [AssistantMessage asks_two]) [call_a, call_b]
       = (Inr (), example_history @ [AssistantMessage asks_two] @
            [ToolMessage ''a'' ''get_top_movies'' ''Glass Onion'',
             ToolMessage ''b'' ''add_to_favorites'' ''Error: Movie not found''], 1)
   \<and> chat_loop netflix_result_text (Suc 1) example_env 0 example_history
       = chat_loop netflix_result_text 1 example_env 1
           (example_history @ [AssistantMessage asks_two] @
              [ToolMessage ''a'' ''get_top_movies'' ''Glass Onion'',
               ToolMessage ''b'' ''add_to_favorites'' ''Error: Movie not found''])"
proof -
  have c: "the_tool_calls asks_two = [call_a, call_b]"
    by (simp add: the_tool_calls_def asks_two_def)
  then have h2: "the_tool_calls asks_two \<noteq> []" by simp
  have d: "decodes example_env call_a" "decodes example_env call_b"
    by (simp_all add: decodes_def example_env_def call_a_def call_b_def)
  then have all: "\<forall>t \<in> set [call_a, call_b]. decodes example_env t"
    by simp
  note round = chat_answers_every_tool_call[OF ex_complete0 h2, of netflix_result_text 1,
      unfolded c example_answers fst_conv snd_conv]
  from round[unfolded if_P[OF all]] ex_complete0 c d show ?thesis by blast
qed

text \<open>
  The claim as stated fails when a request does not decode: the assistant message of the
  example carries three requests, and the loop leaves the history with one tool message.
\<close>

theorem unanswered_requests_counterexample:
  "the_tool_calls asks_malformed = [call_a, call_c, call_b]
   \<and> chat_loop netflix_result_text 1 example_env 7 example_history
       = Some (Inl JSONDecodeError,
               example_history @ [AssistantMessage asks_malformed,
                  ToolMessage ''a'' ''get_top_movies'' ''Glass Onion''], 8)"
  by (simp add: the_tool_calls_def asks_malformed_def example_env_def process_tool_call_def
      call_a_def call_b_def call_c_def netflix_result_text_def top_movies_def)

subsection \<open>Failures of the argument decoder\<close>

text \<open>
  Claim C9. \<^verbatim>\<open>json.loads\<close> is called before the \<^verbatim>\<open>try\<close> block. When the
  arguments of a request do not decode, while those of the requests before it did, the
  exception leaves \<^verbatim>\<open>chat\<close>: the history then holds the assistant message and the
  answers to the earlier requests only, with no tool message for the failing request or
  for any later one. The statement is about the loop in any round of the turn.
\<close>

theorem json_decode_failure_aborts_turn:
  assumes "complete E w messages = (Inr a, w1)"
    and "the_tool_calls a = pre @ tc # post"
    and "\<forall>t \<in> set pre. json_loads E (tc_arguments t) \<noteq> None"
    and "json_loads E (tc_arguments tc) = None"
  shows "\<exists>results w2.
           chat_loop rt (Suc n) E w messages
             = Some (Inl JSONDecodeError, messages @ [AssistantMessage a] @ results, w2)
         \<and> list_all2 answers pre results"
proof -
  let ?m1 = "messages @ [AssistantMessage a]"
  from process_tool_calls_decoded[OF assms(3), of rt w1 ?m1]
  obtain results w2 where
    p: "process_tool_calls rt E w1 ?m1 pre = (Inr (), ?m1 @ results, w2)"
    and a: "list_all2 answers pre results" by blast
  have "process_tool_call rt E w2 (?m1 @ results) tc = (Inl JSONDecodeError, ?m1 @ results, w2)"
    using assms(4) by (simp add: process_tool_call_def)
  then have "process_tool_calls rt E w1 ?m1 (pre @ tc # post) = (Inl JSONDecodeError, ?m1 @ results, w2)"
    using p by (simp add: process_tool_calls_append)
  then have "process_tool_calls rt E w1 ?m1 (the_tool_calls a) = (Inl JSONDecodeError, ?m1 @ results, w2)"
    using assms(2) by simp
  from chat_loop_abort[OF assms(1) _ this, of n] assms(2) a show ?thesis by auto
qed

theorem json_decode_failure_aborts_turn_witness:
  "complete example_env 7 example_history = (Inr asks_malformed, 8)
   \<and> the_tool_calls asks_malformed = [call_a] @ call_c # [call_b]
   \<and> json_loads example_env (tc_arguments call_a) \<noteq> None
   \<and> json_loads example_env (tc_arguments call_c) = None
   \<and> (\<exists>results w2.
           chat_loop puppy_result_text (Suc 0) example_env 7 example_history
             = Some (Inl JSONDecodeError, example_history @ [AssistantMessage asks_malformed] @ results, w2)
         \<and> list_all2 answers [call_a] results)"
proof -
  have h2: "the_tool_calls asks_malformed = [call_a] @ call_c # [call_b]"
    by (simp add: the_tool_calls_def asks_malformed_def)
  have h3: "\<forall>t \<in> set [call_a]. json_loads example_env (tc_arguments t) \<noteq> None"
    by (simp add: example_env_def call_a_def)
  have h4: "json_loads example_env (tc_arguments call_c) = None"
    by (simp add: example_env_def call_c_def)
  from json_decode_failure_aborts_turn[OF ex_complete7 h2 h3 h4, of puppy_result_text 0]
    ex_complete7 h2 h3 h4
  show ?thesis by auto
qed

subsection \<open>Failures of a tool invocation\<close>

lemma expected_answers_append:
  "expected_answers rt E w (xs @ ys)
     = (fst (expected_answers rt E w xs)
          @ fst (expected_answers rt E (snd (expected_answers rt E w xs)) ys),
        snd (expected_answers rt E (snd (expected_answers rt E w xs)) ys))"
proof (induction xs arbitrary: w)
  case Nil
  show ?case by simp
next
  case (Cons x xs)
  obtain outcome w' where
    c: "call_tool E w (tc_name x) (the (json_loads E (tc_arguments x))) = (outcome, w')"
    by (cases "call_tool E w (tc_name x) (the (json_loads E (tc_arguments x)))")
  show ?case using Cons[of w'] c by (simp split: prod.splits)
qed

text \<open>
  Claim C2, as amended. Take a tool-call request whose arguments decode and whose remote
  invocation raises an exception with message \<open>e\<close>. The loop appends for it a tool message
  with content \<^verbatim>\<open>"Error: "\<close> followed by \<open>e\<close>, and that failure neither aborts the loop nor
  reaches the caller: the \<^verbatim>\<open>for\<close> loop goes on with the requests after it. When the
  arguments of all requests of the round decode, the round ends normally with one tool
  message for each request, the one at the place of the failing request being the error
  message, and the turn goes on with the next completion; when that completion carries no
  tool call, \<^verbatim>\<open>chat\<close> returns its content normally.
\<close>

theorem tool_failure_is_folded:
  assumes "json_loads E (tc_arguments tc) = Some args"
    and "call_tool E wp (tc_name tc) args = (Raised e, wq)"
  shows "process_tool_call rt E wp m1 tc
           = (Inr (), m1 @ [ToolMessage (tc_id tc) (tc_name tc) (''Error: '' @ e)], wq)
       \<and> process_tool_calls rt E wp m1 (tc # post)
           = process_tool_calls rt E wq (m1 @ [ToolMessage (tc_id tc) (tc_name tc) (''Error: '' @ e)]) post
       \<and> (\<forall>w messages a w1 pre n.
             complete E w messages = (Inr a, w1)
             \<and> the_tool_calls a = pre @ tc # post
             \<and> (\<forall>t \<in> set (the_tool_calls a). decodes E t)
             \<and> process_tool_calls rt E w1 (messages @ [AssistantMessage a]) pre = (Inr (), m1, wp)
           \<longrightarrow> (\<exists>results w2.
                  results = fst (expected_answers rt E w1 (the_tool_calls a))
                \<and> process_tool_calls rt E w1 (messages @ [AssistantMessage a]) (the_tool_calls a)
                    = (Inr (), messages @ [AssistantMessage a] @ results, w2)
                \<and> length results = length (the_tool_calls a)
                \<and> results ! length pre = ToolMessage (tc_id tc) (tc_name tc) (''Error: '' @ e)
                \<and> chat_loop rt (Suc n) E w messages
                    = chat_loop rt n E w2 (messages @ [AssistantMessage a] @ results)
                \<and> (\<forall>a2 w3. complete E w2 (messages @ [AssistantMessage a] @ results) = (Inr a2, w3)
                        \<and> the_tool_calls a2 = []
                     \<longrightarrow> chat_loop rt (Suc (Suc n)) E w messages
                           = Some (Inr (content_or_empty a2),
                                   messages @ [AssistantMessage a] @ results @ [AssistantMessage a2],
                                   w3))))"
proof -
  let ?err = "ToolMessage (tc_id tc) (tc_name tc) (''Error: '' @ e)"
  have step: "process_tool_call rt E wp m1 tc = (Inr (), m1 @ [?err], wq)"
    using assms by (simp add: process_tool_call_def)
  then have loop: "process_tool_calls rt E wp m1 (tc # post)
      = process_tool_calls rt E wq (m1 @ [?err]) post"
    by simp
  have round: "\<forall>w messages a w1 pre n.
             complete E w messages = (Inr a, w1)
             \<and> the_tool_calls a = pre @ tc # post
             \<and> (\<forall>t \<in> set (the_tool_calls a). decodes E t)
             \<and> process_tool_calls rt E w1 (messages @ [AssistantMessage a]) pre = (Inr (), m1, wp)
           \<longrightarrow> (\<exists>results w2.
                  results = fst (expected_answers rt E w1 (the_tool_calls a))
                \<and> process_tool_calls rt E w1 (messages @ [AssistantMessage a]) (the_tool_calls a)
                    = (Inr (), messages @ [AssistantMessage a] @ results, w2)
                \<and> length results = length (the_tool_calls a)
                \<and> results ! length pre = ?err
                \<and> chat_loop rt (Suc n) E w messages
                    = chat_loop rt n E w2 (messages @ [AssistantMessage a] @ results)
                \<and> (\<forall>a2 w3. complete E w2 (messages @ [AssistantMessage a] @ results) = (Inr a2, w3)
                        \<and> the_tool_calls a2 = []
                     \<longrightarrow> chat_loop rt (Suc (Suc n)) E w messages
                           = Some (Inr (content_or_empty a2),
                                   messages @ [AssistantMessage a] @ results @ [AssistantMessage a2],
                                   w3)))"
  proof (intro allI impI, elim conjE)
    fix w messages a w1 pre n
    assume h1: "complete E w messages = (Inr a, w1)"
      and h2: "the_tool_calls a = pre @ tc # post"
      and h3: "\<forall>t \<in> set (the_tool_calls a). decodes E t"
      and h4: "process_tool_calls rt E w1 (messages @ [AssistantMessage a]) pre = (Inr (), m1, wp)"
    let ?m1 = "messages @ [AssistantMessage a]"
    let ?results = "fst (expected_answers rt E w1 (the_tool_calls a))"
    let ?w2 = "snd (expected_answers rt E w1 (the_tool_calls a))"
    have whole: "process_tool_calls rt E w1 ?m1 (the_tool_calls a) = (Inr (), ?m1 @ ?results, ?w2)"
      by (rule process_tool_calls_exact[OF h3])
    have ne: "the_tool_calls a \<noteq> []" using h2 by simp
    have dpre: "\<forall>t \<in> set pre. decodes E t" using h2 h3 by simp
    from process_tool_calls_exact[OF dpre, of rt w1 ?m1] h4
    have m1: "m1 = ?m1 @ fst (expected_answers rt E w1 pre)"
      and wp: "wp = snd (expected_answers rt E w1 pre)"
      by simp_all
    have "expected_answers rt E w1 (pre @ tc # post)
            = (fst (expected_answers rt E w1 pre)
                 @ fst (expected_answers rt E (snd (expected_answers rt E w1 pre)) (tc # post)),
               snd (expected_answers rt E (snd (expected_answers rt E w1 pre)) (tc # post)))"
      by (rule expected_answers_append)
    moreover have "fst (expected_answers rt E wp (tc # post))
            = ?err # fst (expected_answers rt E wq post)"
      using assms by (simp split: prod.splits)
    ultimately have "?results = fst (expected_answers rt E w1 pre) @ ?err
                        # fst (expected_answers rt E wq post)"
      using h2 wp by simp
    moreover have "length (fst (expected_answers rt E w1 pre)) = length pre"
      by (rule length_expected_answers)
    ultimately have nth: "?results ! length pre = ?err"
      by (metis nth_append_length)
    have cont: "chat_loop rt (Suc n) E w messages = chat_loop rt n E ?w2 (?m1 @ ?results)"
      by (rule chat_loop_round[OF h1 ne whole])
    have fin: "chat_loop rt (Suc (Suc n)) E w messages
                 = Some (Inr (content_or_empty a2), (?m1 @ ?results) @ [AssistantMessage a2], w3)"
      if "complete E ?w2 (?m1 @ ?results) = (Inr a2, w3)" and "the_tool_calls a2 = []" for a2 w3
      using chat_loop_round[OF h1 ne whole, of "Suc n"] chat_loop_final[OF that, of rt n] by simp
    show "\<exists>results w2.
                  results = fst (expected_answers rt E w1 (the_tool_calls a))
                \<and> process_tool_calls rt E w1 (messages @ [AssistantMessage a]) (the_tool_calls a)
                    = (Inr (), messages @ [AssistantMessage a] @ results, w2)
                \<and> length results = length (the_tool_calls a)
                \<and> results ! length pre = ?err
                \<and> chat_loop rt (Suc n) E w messages
                    = chat_loop rt n E w2 (messages @ [AssistantMessage a] @ results)
                \<and> (\<forall>a2 w3. complete E w2 (messages @ [AssistantMessage a] @ results) = (Inr a2, w3)
                        \<and> the_tool_calls a2 = []
                     \<longrightarrow> chat_loop rt (Suc (Suc n)) E w messages
                           = Some (Inr (content_or_empty a2),
                                   messages @ [AssistantMessage a] @ results @ [AssistantMessage a2],
                                   w3))"
      apply (rule exI[of _ ?results], rule exI[of _ ?w2])
      using whole nth cont fin by (simp add: length_expected_answers del: chat_loop.simps)
  qed
  show ?thesis by (rule conjI[OF step conjI[OF loop round]])
qed

theorem tool_failure_is_folded_witness:
  "json_loads example_env (tc_arguments call_b) = Some ''{}''
   \<and> call_tool example_env 1 (tc_name call_b) ''{}'' = (Raised ''Movie not found'', 1)
   \<and> complete example_env 0 example_history = (Inr asks_two, 1)
   \<and> the_tool_calls asks_two = [call_a] @ call_b # []
   \<and> decodes example_env call_a \<and> decodes example_env call_b
   \<and> process_tool_calls netflix_result_text example_env 1
           (example_history @ [AssistantMessage asks_two]) [call_a]
         = (Inr (), example_history @ [AssistantMessage asks_two,
               ToolMessage ''a'' ''get_top_movies'' ''Glass Onion''], 1)
   \<and> complete example_env 1
         (example_history @ [AssistantMessage asks_two] @
            [ToolMessage ''a'' ''get_top_movies'' ''Glass Onion'',
             ToolMessage ''b'' ''add_to_favorites'' ''Error: Movie not found''])
       = (Inr final_answer, 2)
   \<and> chat_loop netflix_result_text (Suc (Suc 0)) example_env 0 example_history
       = Some (Inr ''done'',
               example_history @ [AssistantMessage asks_two] @
                 [ToolMessage ''a'' ''get_top_movies'' ''Glass Onion'',
                  ToolMessage ''b'' ''add_to_favorites'' ''Error: Movie not found'']
                 @ [AssistantMessage final_answer], 2)"
proof -
  let ?m1 = "example_history @ [AssistantMessage asks_two]"
  let ?results = "[ToolMessage ''a'' ''get_top_movies'' ''Glass Onion'',
                   ToolMessage ''b'' ''add_to_favorites'' ''Error: Movie not found'']"
  have h5: "json_loads example_env (tc_arguments call_b) = Some ''{}''"
    by (simp add: example_env_def call_b_def)
  have h6: "call_tool example_env 1 (tc_name call_b) ''{}'' = (Raised ''Movie not found'', 1)"
    by (simp add: example_env_def call_b_def)
  have h2: "the_tool_calls asks_two = [call_a] @ call_b # []"
    by (simp add: the_tool_calls_def asks_two_def)
  have d: "decodes example_env call_a" "decodes example_env call_b"
    by (simp_all add: decodes_def example_env_def call_a_def call_b_def)
  then have h3: "\<forall>t \<in> set (the_tool_calls asks_two). decodes example_env t"
    by (simp add: h2)
  have ex: "expected_answers netflix_result_text example_env 1 (the_tool_calls asks_two)
              = (?results, 1)"
    using example_answers by (simp add: h2)
  have prem: "complete example_env 0 example_history = (Inr asks_two, 1)
             \<and> the_tool_calls asks_two = [call_a] @ call_b # []
             \<and> (\<forall>t \<in> set (the_tool_calls asks_two). decodes example_env t)
             \<and> process_tool_calls netflix_result_text example_env 1 ?m1 [call_a]
                 = (Inr (), example_history @ [AssistantMessage asks_two,
                      ToolMessage ''a'' ''get_top_movies'' ''Glass Onion''], 1)"
    using ex_complete0 h2 h3 ex_pre by (intro conjI)
  note round = tool_failure_is_folded[OF h5 h6, of netflix_result_text
      "example_history @ [AssistantMessage asks_two, ToolMessage ''a'' ''get_top_movies'' ''Glass Onion'']"
      "[]", THEN conjunct2, THEN conjunct2, rule_format,
      of 0 example_history asks_two 1 "[call_a]" 0, OF prem]
  from round obtain results w2 where
    r: "results = fst (expected_answers netflix_result_text example_env 1 (the_tool_calls asks_two))"
    and run0: "process_tool_calls netflix_result_text example_env 1
            (example_history @ [AssistantMessage asks_two]) (the_tool_calls asks_two)
            = (Inr (), example_history @ [AssistantMessage asks_two] @ results, w2)"
    and fin0: "\<forall>a2 w3. complete example_env w2
                    (example_history @ [AssistantMessage asks_two] @ results) = (Inr a2, w3)
                  \<and> the_tool_calls a2 = []
               \<longrightarrow> chat_loop netflix_result_text (Suc (Suc 0)) example_env 0 example_history
                     = Some (Inr (content_or_empty a2),
                             example_history @ [AssistantMessage asks_two] @ results
                               @ [AssistantMessage a2], w3)"
    by (elim exE conjE) blast
  have rs: "results = ?results" unfolding r ex by simp
  note run = run0[unfolded rs] and fin = fin0[unfolded rs]
  from process_tool_calls_exact[OF h3, of netflix_result_text 1 ?m1, unfolded ex] run
  have w: "w2 = 1" by simp
  have e: "the_tool_calls final_answer = []" "content_or_empty final_answer = ''done''"
    by (simp_all add: the_tool_calls_def content_or_empty_def final_answer_def)
  have c: "complete example_env 1 (example_history @ [AssistantMessage asks_two] @ ?results)
             = (Inr final_answer, 2)"
    by (simp add: example_env_def)
  from fin[unfolded w, rule_format, of final_answer 2] c e
  have "chat_loop netflix_result_text (Suc (Suc 0)) example_env 0 example_history
                     = Some (Inr ''done'', example_history @ [AssistantMessage asks_two] @ ?results
                               @ [AssistantMessage final_answer], 2)"
    by (simp del: chat_loop.simps)
  with h5 h6 ex_complete0 h2 d ex_pre c show ?thesis by (intro conjI)
qed

text \<open>
  The claim as stated fails when a later request of the turn does not decode: the failure
  of \<open>b\<close> is folded into its tool message, and then the exception of the decoder leaves
  \<^verbatim>\<open>chat\<close> instead of a normal completion.
\<close>

theorem tool_failure_counterexample:
  "call_tool unlucky_env 1 (tc_name call_b) ''{}'' = (Raised ''Movie not found'', 1)
   \<and> chat netflix_result_text 1 unlucky_env 0 [example_system] ''add it''
       = Some (Inl JSONDecodeError,
               [example_system, UserMessage ''add it'', AssistantMessage asks_failing_then_malformed,
                ToolMessage ''b'' ''add_to_favorites'' ''Error: Movie not found''], 1)"
  by (simp add: chat_def unlucky_env_def example_env_def the_tool_calls_def
      asks_failing_then_malformed_def process_tool_call_def call_b_def call_c_def)

section \<open>The text of a successful result\<close>

lemma text_items_filter:
  "text_items bs = map (\<lambda>block. the (block_text block)) (filter (\<lambda>block. block_text block \<noteq> None) bs)"
  by (induction bs) (auto split: option.splits)

lemma py_join_foldl: "py_join sep (x # xs) = foldl (\<lambda>acc y. acc @ sep @ y) x xs"
proof (induction xs arbitrary: x)
  case Nil
  then show ?case by simp
next
  case (Cons y ys)
  have "foldl (\<lambda>acc z. acc @ sep @ z) (x @ sep @ y) ys = x @ sep @ foldl (\<lambda>acc z. acc @ sep @ z) y ys" for x
    by (induction ys arbitrary: y) simp_all
  with Cons show ?case by simp
qed

lemma netflix_result_text_items:
  "netflix_result_text result = py_join newline (text_items (content result))"
  unfolding netflix_result_text_def text_items_filter ..

lemma netflix_result_text_payload: "netflix_result_text result = text_payload result"
  unfolding netflix_result_text_items text_payload_def
  by (cases "text_items (content result)") (simp_all add: py_join_foldl)

text \<open>
  Claim C6, as amended. In the fastmcp_netflix client, the text folded into the tool message
  of a successful invocation is the text payload of the result: its text-bearing items in
  order, separated by newlines, the other items skipped.
\<close>

theorem netflix_folds_joined_text:
  assumes "json_loads E (tc_arguments tc) = Some args"
    and "call_tool E w (tc_name tc) args = (Returned result, w')"
  shows "process_tool_call netflix_result_text E w messages tc
           = (Inr (), messages @ [ToolMessage (tc_id tc) (tc_name tc) (text_payload result)], w')"
  using assms by (simp add: process_tool_call_def netflix_result_text_payload)

text \<open>
  The claim as stated fails for the two other clients. \<^verbatim>\<open>mcp-client/client.py\<close> folds
  \<^verbatim>\<open>str(result.content)\<close>, which is \<^verbatim>\<open>[]\<close> for an empty content sequence, and
  \<^verbatim>\<open>puppy_guide/client/main.py\<close> folds \<^verbatim>\<open>str(result)\<close>.
\<close>

theorem result_text_counterexample:
  "mcp_client_tool_content no_content = ''[]'' \<and> text_payload no_content = []
   \<and> puppy_result_text top_movies \<noteq> text_payload top_movies"
  by (simp add: mcp_client_tool_content_def py_str_list_def no_content_def text_payload_def
      puppy_result_text_def top_movies_def newline_def)

theorem netflix_folds_joined_text_witness:
  "json_loads example_env (tc_arguments call_a) = Some ''{}''
   \<and> call_tool example_env 1 (tc_name call_a) ''{}'' = (Returned top_movies, 1)
   \<and> process_tool_call netflix_result_text example_env 1 example_history call_a
       = (Inr (), example_history @ [ToolMessage ''a'' ''get_top_movies'' ''Glass Onion''], 1)"
proof -
  have h1: "json_loads example_env (tc_arguments call_a) = Some ''{}''"
    by (simp add: example_env_def call_a_def)
  have h2: "call_tool example_env 1 (tc_name call_a) ''{}'' = (Returned top_movies, 1)"
    by (simp add: example_env_def call_a_def)
  have "text_payload top_movies = ''Glass Onion''"
    by (simp add: text_payload_def top_movies_def)
  with netflix_folds_joined_text[OF h1 h2, of example_history] h1 h2
  show ?thesis by (simp add: call_a_def)
qed

section \<open>The favorites list\<close>

lemma add_to_favorites_already:
  assumes "lookup_movie db title mid = Some m"
    and "\<not> ((title = None \<or> title = Some []) \<and> (mid = None \<or> mid = Some 0))"
    and "list_ex (\<lambda>fav. fav ''id'' = Some (JInt (movie_id m))) (get_favorites_list state)"
  shows "add_to_favorites db title mid state
           = (ToolReturn (apostrophe @ py_str (title_json m) @ apostrophe
                            @ '' is already in your favorites''), state)"
  using assms by (simp add: add_to_favorites_def Let_def)

lemma get_favorites_list_update:
  "get_favorites_list (state(''favorites'' \<mapsto> favs)) = favs"
  by (simp add: get_favorites_list_def)

lemma add_to_favorites_distinct:
  assumes "distinct (favorite_ids state)"
  shows "distinct (favorite_ids (snd (add_to_favorites db title mid state)))"
proof -
  have new: "distinct (map (\<lambda>fav. fav ''id'')
               (get_favorites_list state @ [[''id'' \<mapsto> JInt i, ''title'' \<mapsto> t]]))"
    if "\<not> list_ex (\<lambda>fav. fav ''id'' = Some (JInt i)) (get_favorites_list state)" for i t
    using that assms by (auto simp: favorite_ids_def list_ex_iff)
  show ?thesis
    using assms new
    by (auto simp: add_to_favorites_def Let_def favorite_ids_def get_favorites_list_update
        split: option.splits)
qed

lemma add_all_distinct:
  "distinct (favorite_ids state) \<Longrightarrow> distinct (favorite_ids (add_all db calls state))"
  by (induction calls arbitrary: state) (auto simp: add_to_favorites_distinct)

lemma add_to_favorites_twice:
  "snd (add_to_favorites db title mid (snd (add_to_favorites db title mid state)))
     = snd (add_to_favorites db title mid state)"
proof (cases "(title = None \<or> title = Some []) \<and> (mid = None \<or> mid = Some 0)")
  case True
  then show ?thesis by (simp add: add_to_favorites_def)
next
  case False
  show ?thesis
  proof (cases "lookup_movie db title mid")
    case None
    with False show ?thesis by (auto simp: add_to_favorites_def)
  next
    case (Some m)
    show ?thesis
    proof (cases "list_ex (\<lambda>fav. fav ''id'' = Some (JInt (movie_id m))) (get_favorites_list state)")
      case True
      with False Some show ?thesis by (auto simp: add_to_favorites_def Let_def)
    next
      case no: False
      let ?favs = "get_favorites_list state @ [[''id'' \<mapsto> JInt (movie_id m), ''title'' \<mapsto> title_json m]]"
      have first: "snd (add_to_favorites db title mid state) = state(''favorites'' \<mapsto> ?favs)"
        using False Some no by (auto simp: add_to_favorites_def Let_def)
      have "list_ex (\<lambda>fav. fav ''id'' = Some (JInt (movie_id m)))
              (get_favorites_list (state(''favorites'' \<mapsto> ?favs)))"
        by (simp add: get_favorites_list_update)
      with False Some have "snd (add_to_favorites db title mid (state(''favorites'' \<mapsto> ?favs)))
          = state(''favorites'' \<mapsto> ?favs)"
        by (auto simp: add_to_favorites_def Let_def)
      with first show ?thesis by simp
    qed
  qed
qed

text \<open>
  Claim C10. When the favorites list of the session already holds an entry with the id of
  the movie that the call resolves to, \<^verbatim>\<open>add_to_favorites\<close> returns the message that
  the movie is already in the favorites and leaves the session state as it is. A
  call of the tool, with any arguments and in any state, changes nothing when it is
  repeated. As a consequence, whatever calls of the tool a session makes from its empty
  state, no two entries of the favorites list carry the same id.
\<close>

theorem add_to_favorites_idempotent:
  assumes "lookup_movie db title mid = Some m"
    and "\<not> ((title = None \<or> title = Some []) \<and> (mid = None \<or> mid = Some 0))"
    and "list_ex (\<lambda>fav. fav ''id'' = Some (JInt (movie_id m))) (get_favorites_list state)"
  shows "add_to_favorites db title mid state
           = (ToolReturn (apostrophe @ py_str (title_json m) @ apostrophe
                            @ '' is already in your favorites''), state)
       \<and> snd (add_to_favorites db title' mid' (snd (add_to_favorites db title' mid' state')))
           = snd (add_to_favorites db title' mid' state')
       \<and> distinct (favorite_ids (add_all db calls Map.empty))"
proof (intro conjI)
  show "add_to_favorites db title mid state
           = (ToolReturn (apostrophe @ py_str (title_json m) @ apostrophe
                            @ '' is already in your favorites''), state)"
    by (rule add_to_favorites_already[OF assms])
  show "snd (add_to_favorites db title' mid' (snd (add_to_favorites db title' mid' state')))
           = snd (add_to_favorites db title' mid' state')"
    by (rule add_to_favorites_twice)
  have "distinct (favorite_ids Map.empty)"
    by (simp add: favorite_ids_def get_favorites_list_def)
  then show "distinct (favorite_ids (add_all db calls Map.empty))"
    by (rule add_all_distinct)
qed

theorem add_to_favorites_idempotent_witness:
  "lookup_movie example_db None (Some 7) = Some glass_onion
   \<and> \<not> (((None :: string option) = None \<or> None = Some []) \<and> (Some (7::int) = None \<or> Some (7::int) = Some 0))
   \<and> list_ex (\<lambda>fav. fav ''id'' = Some (JInt (movie_id glass_onion))) (get_favorites_list one_favorite)
   \<and> snd (add_to_favorites example_db None (Some 7) Map.empty) = one_favorite
   \<and> snd (add_to_favorites example_db None (Some 7) one_favorite) = one_favorite
   \<and> distinct (favorite_ids (add_all example_db [(None, Some 7), (Some ''glass onion'', None)] Map.empty))"
proof -
  have h1: "lookup_movie example_db None (Some 7) = Some glass_onion"
    by (simp add: lookup_movie_def example_db_def glass_onion_def)
  have h2: "\<not> (((None :: string option) = None \<or> None = Some []) \<and> (Some (7::int) = None \<or> Some (7::int) = Some 0))"
    by simp
  have h3: "list_ex (\<lambda>fav. fav ''id'' = Some (JInt (movie_id glass_onion))) (get_favorites_list one_favorite)"
    by (simp add: get_favorites_list_def one_favorite_def glass_onion_def)
  have first: "snd (add_to_favorites example_db None (Some 7) Map.empty) = one_favorite"
    by (simp add: add_to_favorites_def lookup_movie_def example_db_def get_favorites_list_def
        one_favorite_def title_json_def Let_def)
  from add_to_favorites_idempotent[OF h1 h2 h3,
      where calls = "[(None, Some 7), (Some ''glass onion'', None)]"]
    h1 h2 h3 first
  show ?thesis by simp
qed

section \<open>The elicitation handlers\<close>

lemma py_print_fields [simp]:
  "pending (py_print s t) = pending t"
  "printed (py_print s t) = printed t @ s @ newline"
  by (simp_all add: py_print_def)

lemma print_menu_pending [simp]: "pending (print_menu i options t) = pending t"
  by (induction options arbitrary: i t) simp_all

lemma print_menu_printed: "\<exists>out. printed (print_menu i options t) = printed t @ out"
proof (induction options arbitrary: i t)
  case Nil
  then show ?case by simp
next
  case (Cons option options)
  from Cons[of "Suc i" "py_print (''  '' @ str_nat i @ ''. '' @ option) t"]
  show ?case by auto
qed

lemma py_input_line:
  assumes "pending t = line # rest"
  shows "py_input prompt t = (Inr line, t\<lparr>pending := rest, printed := printed t @ prompt\<rparr>)"
  using assms by (simp add: py_input_def)

lemma print_question_pending [simp]: "pending (print_question message options t) = pending t"
  by (simp add: print_question_def Let_def)

lemma print_question_printed:
  "length (printed t) < length (printed (print_question message options t))"
proof -
  obtain out where "printed (print_menu 1 options
      (py_print ''Please enter the number of your choice:''
        (py_print [] (py_print (''[Server asks]: '' @ message) (py_print [] t)))))
    = printed (py_print ''Please enter the number of your choice:''
        (py_print [] (py_print (''[Server asks]: '' @ message) (py_print [] t)))) @ out"
    using print_menu_printed by blast
  then show ?thesis by (simp add: print_question_def Let_def)
qed

text \<open>What the puppy_guide handler does with the line that the user types.\<close>

lemma puppy_elicitation_handler_line:
  assumes "pending t = line # rest"
  shows "\<exists>t'. pending t' = rest \<and> length (printed t) < length (printed t')
          \<and> puppy_elicitation_handler message response_type params t =
               (puppy_answer response_type (schema_options params) (py_strip line), t')"
proof -
  let ?q = "print_question message (schema_options params) t"
  let ?t' = "?q\<lparr>pending := rest, printed := printed ?q @ ''> ''\<rparr>"
  have "pending ?q = line # rest" using assms by simp
  then have inp: "py_input ''> '' ?q = (Inr line, ?t')"
    by (rule py_input_line)
  have "length (printed t) < length (printed ?t')"
    using print_question_printed[of t message "schema_options params"] by simp
  moreover have "pending ?t' = rest" by simp
  moreover have "puppy_elicitation_handler message response_type params t =
               (puppy_answer response_type (schema_options params) (py_strip line), ?t')"
    unfolding puppy_elicitation_handler_def Let_def inp by simp
  ultimately show ?thesis by blast
qed

lemmas eval_strings = py_int_def py_strip_def py_isspace_def is_digit_def digit_value_def
  int_max_str_digits_def

lemmas eval_handler = puppy_elicitation_handler_def puppy_answer_def print_question_def Let_def
  py_input_def user_types_def schema_options_def str_nat.simps digit_char_def

section \<open>Requests that expect no data\<close>




section \<open>A choice from the menu\<close>

text \<open>
  What the puppy_guide handler answers to an integer: an entry of the menu is accepted
  with its option, a choice beyond the abandon entry makes the handler raise. The second
  lemma group is the scenario of the specification with the options
  \<^verbatim>\<open>labrador\<close> and \<^verbatim>\<open>poodle\<close>.
\<close>

lemma puppy_answer_beyond_menu:
  assumes "py_int raw = Some choice" and "int (length options) + 1 < choice"
  shows "puppy_answer (Some rtype) options raw = Inl IndexError"
  using assms by (simp add: puppy_answer_def)

lemma puppy_answer_in_menu:
  assumes "py_int raw = Some choice" and "1 \<le> choice" and "choice \<le> int (length options)"
  shows "puppy_answer (Some rtype) options raw = Inr (ResponseValue rtype (options ! nat (choice - 1)))"
  using assms by (simp add: puppy_answer_def)

lemma puppy_answer_declines:
  assumes "py_int raw = None \<or> (\<exists>choice. py_int raw = Some choice
             \<and> (choice < 1 \<or> choice = int (length options) + 1))"
  shows "puppy_answer response_type options raw = Inr (ElicitResult Decline)"
  using assms by (auto simp: puppy_answer_def)

lemma menu_scenario:
  "schema_options breed_params = [''labrador'', ''poodle'']"
  "puppy_answer (Some (EnumeratedStringSet [''labrador'', ''poodle''])) [''labrador'', ''poodle''] ''3''
     = Inr (ElicitResult Decline)"
  "puppy_answer (Some (EnumeratedStringSet [''labrador'', ''poodle''])) [''labrador'', ''poodle''] ''1''
     = Inr (ResponseValue (EnumeratedStringSet [''labrador'', ''poodle'']) ''labrador'')"
  "puppy_answer (Some (EnumeratedStringSet [''labrador'', ''poodle''])) [''labrador'', ''poodle''] ''x''
     = Inr (ElicitResult Decline)"
  "puppy_answer (Some (EnumeratedStringSet [''labrador'', ''poodle''])) [''labrador'', ''poodle''] ''4''
     = Inl IndexError"
  by (simp_all add: schema_options_def breed_params_def puppy_answer_def eval_strings)

text \<open>
  Claim C5. The check \<^verbatim>\<open>choice < 1 or choice == len(options) + 1\<close> lets a choice
  greater than \<open>K + 1\<close> through, and the handler then indexes the list of options out of
  range. With the single option \<^verbatim>\<open>labrador\<close> and the line \<^verbatim>\<open>3\<close> the handler raises
  \<^verbatim>\<open>IndexError\<close> to its caller, where the claim and the handler's own comment ask for
  decline.
\<close>

theorem choice_beyond_abandon_raises:
  "schema_options suggestion_params = [''labrador'']
   \<and> fst (puppy_elicitation_handler ''Did you mean labrador?''
             (Some (EnumeratedStringSet [''labrador''])) suggestion_params (user_types ''3''))
       = Inl IndexError"
  by (simp add: eval_handler eval_strings suggestion_params_def)

section \<open>Requests that expect a value\<close>

text \<open>
  Claim C7, as amended. For a request that expects data of any shape, the fastmcp_netflix
  handler declines a line that is empty or all whitespace and otherwise accepts with the
  stripped line as the value, as it was typed: the line is not coerced to the shape, and
  no line makes the handler raise. The puppy_guide handler declines every line that is not
  an integer literal.
\<close>

theorem netflix_resolver_keeps_raw_line:
  assumes "pending t = line # rest"
  shows "fst (netflix_elicitation_handler message (Some rtype) t)
           = Inr (if py_strip line = [] then ElicitResult Decline
                  else ResponseValue rtype (py_strip line))
       \<and> pending (snd (netflix_elicitation_handler message (Some rtype) t)) = rest
       \<and> (py_int (py_strip line) = None \<longrightarrow>
            fst (puppy_elicitation_handler message (Some rtype) params t)
              = Inr (ElicitResult Decline))"
proof -
  have "pending (py_print [] t) = line # rest" using assms by simp
  from py_input_line[OF this]
  have n: "fst (netflix_elicitation_handler message (Some rtype) t)
           = Inr (if py_strip line = [] then ElicitResult Decline
                  else ResponseValue rtype (py_strip line))"
    "pending (snd (netflix_elicitation_handler message (Some rtype) t)) = rest"
    by (simp_all add: netflix_elicitation_handler_def)
  from puppy_elicitation_handler_line[OF assms, of message "Some rtype" params]
  have "py_int (py_strip line) = None \<longrightarrow>
            fst (puppy_elicitation_handler message (Some rtype) params t)
              = Inr (ElicitResult Decline)"
    by (auto simp: puppy_answer_def)
  with n show ?thesis by simp
qed

theorem netflix_resolver_keeps_raw_line_witness:
  "pending (user_types '' yes '') = '' yes '' # []
   \<and> fst (netflix_elicitation_handler ''Is this the movie?'' (Some Boolean) (user_types '' yes ''))
       = Inr (ResponseValue Boolean ''yes'')
   \<and> pending (snd (netflix_elicitation_handler ''Is this the movie?'' (Some Boolean)
         (user_types '' yes ''))) = []
   \<and> py_int (py_strip '' yes '') = None
   \<and> fst (puppy_elicitation_handler ''Is this the movie?'' (Some Boolean) suggestion_params
         (user_types '' yes '')) = Inr (ElicitResult Decline)"
proof -
  have h: "pending (user_types '' yes '') = '' yes '' # []" by (simp add: user_types_def)
  have s: "py_strip '' yes '' = ''yes''" by (simp add: eval_strings)
  have i: "py_int (py_strip '' yes '') = None" by (simp add: eval_strings)
  from netflix_resolver_keeps_raw_line[OF h, of "''Is this the movie?''" Boolean suggestion_params]
    h i
  show ?thesis by (simp add: s)
qed

text \<open>
  The claim as stated fails for the fastmcp_netflix handler: asked for an integer and given
  the line \<^verbatim>\<open>abc\<close>, it accepts with the value \<^verbatim>\<open>abc\<close>.
\<close>

theorem coercion_counterexample:
  "fst (netflix_elicitation_handler ''Please select the correct one by entering the number''
          (Some Integer) (user_types ''abc''))
     = Inr (ResponseValue Integer ''abc'')
   \<and> py_int ''abc'' = None"
  by (simp add: netflix_elicitation_handler_def py_input_def py_print_def user_types_def eval_strings)

section \<open>The bound on the history\<close>

lemma process_tool_calls_extends:
  "\<exists>results. fst (snd (process_tool_calls rt E w messages tcs)) = messages @ results"
  using process_tool_calls_outcome[of rt E w messages tcs] by auto

lemma chat_loop_extends:
  "chat_loop rt n E w messages = Some (r, messages', w') \<Longrightarrow> \<exists>ext. messages' = messages @ ext"
proof (induction n arbitrary: w messages)
  case 0
  then show ?case by simp
next
  case (Suc n)
  obtain c w1 where c: "complete E w messages = (c, w1)" by (cases "complete E w messages")
  show ?case
  proof (cases c)
    case (Inl e)
    with Suc.prems c show ?thesis by simp
  next
    case (Inr a)
    let ?m1 = "messages @ [AssistantMessage a]"
    show ?thesis
    proof (cases "the_tool_calls a = []")
      case True
      with Suc.prems c Inr show ?thesis by (auto simp: Let_def)
    next
      case False
      obtain o2 m2 w2 where p: "process_tool_calls rt E w1 ?m1 (the_tool_calls a) = (o2, m2, w2)"
        by (cases "process_tool_calls rt E w1 ?m1 (the_tool_calls a)")
      from process_tool_calls_extends[of rt E w1 ?m1 "the_tool_calls a"] p
      obtain results where m2: "m2 = ?m1 @ results" by auto
      show ?thesis
      proof (cases o2)
        case (Inl e)
        with Suc.prems c \<open>c = Inr a\<close> False p m2 show ?thesis by (auto simp: Let_def)
      next
        case (Inr u)
        with Suc.prems c \<open>c = Inr a\<close> False p
        have "chat_loop rt n E w2 m2 = Some (r, messages', w')" by (simp add: Let_def)
        from Suc.IH[OF this] m2 show ?thesis by auto
      qed
    qed
  qed
qed

lemma chat_extends:
  assumes "chat rt n E w messages q = Some (r, messages', w')"
  shows "\<exists>ext. messages' = messages @ UserMessage q # ext"
  using chat_loop_extends[of rt n E w "messages @ [UserMessage q]" r messages' w'] assms
  by (auto simp: chat_def)

lemma leave_try_not_continue: "leave_try e messages w \<noteq> Some (Inr Continue, messages', w')"
  by (simp add: leave_try_def)

lemma after_chat_continue:
  assumes "messages \<noteq> []"
    and "chat rt n E w1 messages q = Some (Inr answer, messages', w')"
  shows "after_chat E (chat rt n E w1 messages q)
           = Some (Inr Continue,
                   if int (length messages') > max_history E + 1 then [hd messages] else messages', w')"
proof -
  from chat_extends[OF assms(2)] obtain ext where "messages' = messages @ UserMessage q # ext"
    by blast
  with assms(1) have "first_only messages' = Inr [hd messages]"
    by (cases messages) (simp_all add: first_only_def)
  then show ?thesis
    by (simp add: after_chat_def assms(2) bound_history_def)
qed

lemma after_chat_keeps_bound:
  assumes "history_ok E sys messages"
    and "after_chat E (chat rt n E w1 messages q) = Some (Inr Continue, messages', w')"
  shows "history_ok E sys messages'"
proof (cases "chat rt n E w1 messages q")
  case None
  with assms(2) show ?thesis by (simp add: after_chat_def)
next
  case (Some res)
  obtain r m1 w2 where res: "res = (r, m1, w2)" by (cases res)
  show ?thesis
  proof (cases r)
    case (Inl e)
    with assms(2) Some res show ?thesis
      by (simp add: after_chat_def leave_try_not_continue)
  next
    case (Inr answer)
    with Some res have c: "chat rt n E w1 messages q = Some (Inr answer, m1, w2)" by simp
    from assms(1) have ne: "messages \<noteq> []" by (simp add: history_ok_def)
    from chat_extends[OF c] obtain ext where m1: "m1 = messages @ UserMessage q # ext" by blast
    from after_chat_continue[OF ne c] assms(2)
    have m': "messages' = (if int (length m1) > max_history E + 1 then [hd messages] else m1)"
      by simp
    show ?thesis
      using assms(1) ne m1 unfolding m' history_ok_def by auto
  qed
qed

lemma repl_iteration_keeps_bound:
  assumes "history_ok E sys messages"
    and "repl_iteration c n E w messages = Some (Inr Continue, messages', w')"
  shows "history_ok E sys messages'"
proof -
  obtain i w1 where i: "input_line E w = (i, w1)" by (cases "input_line E w")
  show ?thesis
  proof (cases i)
    case (Inl e)
    with assms(2) i show ?thesis
      by (cases c) (simp_all add: netflix_repl_iteration_def puppy_repl_iteration_def
          leave_try_not_continue)
  next
    case (Inr line)
    show ?thesis
    proof (cases c)
      case PuppyGuide
      with assms(2) i Inr
      have "after_chat E (chat puppy_result_text n E w1 messages (py_strip line))
              = Some (Inr Continue, messages', w')"
        by (simp add: puppy_repl_iteration_def puppy_chat_def)
      from after_chat_keeps_bound[OF assms(1) this] show ?thesis .
    next
      case Netflix
      from assms(1) obtain m rest where ms: "messages = m # rest" and m: "m = sys"
        by (cases messages) (auto simp: history_ok_def)
      have clear: "first_only messages = Inr [sys]" by (simp add: first_only_def ms m)
      have one: "history_ok E sys [sys]" by (simp add: history_ok_def)
      consider (blank) "messages' = messages" | (cleared) "messages' = [sys]"
        | (asked) "after_chat E (chat netflix_result_text n E w1 messages (py_strip line))
                    = Some (Inr Continue, messages', w')"
        using assms(2) i Inr Netflix clear
        by (auto simp: netflix_repl_iteration_def netflix_chat_def Let_def split: if_splits)
      then show ?thesis
      proof cases
        case blank
        with assms(1) show ?thesis by simp
      next
        case cleared
        with one show ?thesis by simp
      next
        case asked
        from after_chat_keeps_bound[OF assms(1) this] show ?thesis .
      qed
    qed
  qed
qed

lemma between_turns_history_ok:
  "between_turns c E sys w0 messages w \<Longrightarrow> history_ok E sys messages"
proof (induction rule: between_turns.induct)
  case start
  show ?case by (simp add: history_ok_def)
next
  case (turn messages w n messages' w')
  from repl_iteration_keeps_bound[OF turn.IH turn.hyps(2)] show ?case .
qed

lemma puppy_turn:
  assumes "input_line E w = (Inr line, w1)"
  shows "repl_iteration PuppyGuide n E w messages
           = after_chat E (chat puppy_result_text n E w1 messages (py_strip line))"
  using assms by (simp add: puppy_repl_iteration_def puppy_chat_def)

lemma netflix_turn:
  assumes "input_line E w = (Inr line, w1)"
    and "py_strip line \<noteq> []"
    and "py_lower (py_strip line) \<notin> set [''quit'', ''exit'', ''q'', ''clear'']"
  shows "repl_iteration Netflix n E w messages
           = after_chat E (chat netflix_result_text n E w1 messages (py_strip line))"
  using assms by (simp add: netflix_repl_iteration_def netflix_chat_def Let_def)

text \<open>
  Claim C3. Every history that the interactive loop of either client holds between two
  turns starts with the original system message, and its length is at most
  \<open>MAX_HISTORY + 1\<close> unless it is the system message alone. From such a history, an
  iteration of the loop of either client in which the user's line is a question and
  \<^verbatim>\<open>chat\<close> returns an answer goes on to the next turn with the history reset to the
  system message alone when \<^verbatim>\<open>chat\<close> left it longer than \<open>MAX_HISTORY + 1\<close>, and with
  the history as \<^verbatim>\<open>chat\<close> left it otherwise. In the fastmcp_netflix client a question is a
  line that is not blank and is not one of the commands.
\<close>

theorem history_bounded_between_turns:
  assumes "between_turns c E sys w0 messages w"
  shows "messages \<noteq> [] \<and> hd messages = sys
       \<and> (int (length messages) \<le> max_history E + 1 \<or> messages = [sys])
       \<and> (\<forall>n line w1 answer messages' w'.
             input_line E w = (Inr line, w1)
             \<and> chat puppy_result_text n E w1 messages (py_strip line)
                 = Some (Inr answer, messages', w')
           \<longrightarrow> repl_iteration PuppyGuide n E w messages
                 = Some (Inr Continue,
                         if int (length messages') > max_history E + 1 then [sys] else messages', w'))
       \<and> (\<forall>n line w1 answer messages' w'.
             input_line E w = (Inr line, w1)
             \<and> py_strip line \<noteq> []
             \<and> py_lower (py_strip line) \<notin> set [''quit'', ''exit'', ''q'', ''clear'']
             \<and> chat netflix_result_text n E w1 messages (py_strip line)
                 = Some (Inr answer, messages', w')
           \<longrightarrow> repl_iteration Netflix n E w messages
                 = Some (Inr Continue,
                         if int (length messages') > max_history E + 1 then [sys] else messages', w'))"
proof -
  from between_turns_history_ok[OF assms]
  have ok: "messages \<noteq> []" "hd messages = sys"
    "int (length messages) \<le> max_history E + 1 \<or> messages = [sys]"
    by (simp_all add: history_ok_def)
  have puppy: "\<forall>n line w1 answer messages' w'.
             input_line E w = (Inr line, w1)
             \<and> chat puppy_result_text n E w1 messages (py_strip line)
                 = Some (Inr answer, messages', w')
           \<longrightarrow> repl_iteration PuppyGuide n E w messages
                 = Some (Inr Continue,
                         if int (length messages') > max_history E + 1 then [sys] else messages', w')"
  proof (intro allI impI, elim conjE)
    fix n line w1 answer messages' w'
    assume i: "input_line E w = (Inr line, w1)"
      and c: "chat puppy_result_text n E w1 messages (py_strip line) = Some (Inr answer, messages', w')"
    show "repl_iteration PuppyGuide n E w messages
                 = Some (Inr Continue,
                         if int (length messages') > max_history E + 1 then [sys] else messages', w')"
      unfolding puppy_turn[OF i] after_chat_continue[OF ok(1) c] ok(2) ..
  qed
  have netflix: "\<forall>n line w1 answer messages' w'.
             input_line E w = (Inr line, w1)
             \<and> py_strip line \<noteq> []
             \<and> py_lower (py_strip line) \<notin> set [''quit'', ''exit'', ''q'', ''clear'']
             \<and> chat netflix_result_text n E w1 messages (py_strip line)
                 = Some (Inr answer, messages', w')
           \<longrightarrow> repl_iteration Netflix n E w messages
                 = Some (Inr Continue,
                         if int (length messages') > max_history E + 1 then [sys] else messages', w')"
  proof (intro allI impI, elim conjE)
    fix n line w1 answer messages' w'
    assume i: "input_line E w = (Inr line, w1)"
      and s: "py_strip line \<noteq> []"
      and l: "py_lower (py_strip line) \<notin> set [''quit'', ''exit'', ''q'', ''clear'']"
      and c: "chat netflix_result_text n E w1 messages (py_strip line) = Some (Inr answer, messages', w')"
    show "repl_iteration Netflix n E w messages
                 = Some (Inr Continue,
                         if int (length messages') > max_history E + 1 then [sys] else messages', w')"
      unfolding netflix_turn[OF i s l] after_chat_continue[OF ok(1) c] ok(2) ..
  qed
  show ?thesis
    by (rule conjI[OF ok(1) conjI[OF ok(2) conjI[OF ok(3) conjI[OF puppy netflix]]]])
qed

lemma length_exchanged: "length (exchanged k) = 2 * k + 1"
  by (induction k) simp_all

lemma talkative_input: "w < 7 \<Longrightarrow> input_line talkative_env w = (Inr ''hello'', w)"
  by (simp add: talkative_env_def example_env_def)

lemma hello_is_no_command:
  "py_strip ''hello'' = ''hello''" "py_lower ''hello'' = ''hello''"
  by (simp_all add: py_strip_def py_isspace_def py_lower_def py_lower_char_def)

lemma talkative_chat:
  "chat rt (Suc 0) talkative_env w messages ''hello''
     = Some (Inr ''done'', messages @ [UserMessage ''hello'', AssistantMessage final_answer], Suc w)"
  by (simp add: chat_def talkative_env_def example_env_def the_tool_calls_def content_or_empty_def
      final_answer_def)

lemma hello_is_a_question:
  "py_strip ''hello'' \<noteq> []"
  "py_lower (py_strip ''hello'') \<notin> set [''quit'', ''exit'', ''q'', ''clear'']"
  by (simp_all add: hello_is_no_command)

lemma talkative_between_turns:
  "k \<le> 5 \<Longrightarrow> between_turns c talkative_env example_system 0 (exchanged k) k"
proof (induction k)
  case 0
  show ?case by (simp add: between_turns.start)
next
  case (Suc k)
  then have b: "between_turns c talkative_env example_system 0 (exchanged k) k" and k: "k < 5"
    by simp_all
  have m: "max_history talkative_env = 10" by (simp add: talkative_env_def example_env_def)
  have i: "input_line talkative_env k = (Inr ''hello'', k)"
    using k by (simp add: talkative_input)
  have a: "after_chat talkative_env (chat rt (Suc 0) talkative_env k (exchanged k) ''hello'')
             = Some (Inr Continue, exchanged (Suc k), Suc k)" for rt
    using k by (simp add: talkative_chat after_chat_def bound_history_def m length_exchanged)
  have "repl_iteration c (Suc 0) talkative_env k (exchanged k)
          = Some (Inr Continue, exchanged (Suc k), Suc k)"
  proof (cases c)
    case Netflix
    show ?thesis
      unfolding Netflix netflix_turn[OF i hello_is_a_question] hello_is_no_command a ..
  next
    case PuppyGuide
    show ?thesis
      unfolding PuppyGuide puppy_turn[OF i] hello_is_no_command a ..
  qed
  from between_turns.turn[OF b this] show ?case .
qed

text \<open>
  The witness is the scenario of the specification: with \<^verbatim>\<open>MAX_HISTORY = 10\<close>, after five
  turns the history has 11 messages, and the sixth turn, which brings it to 13, resets it.
\<close>

theorem history_bounded_between_turns_witness:
  "between_turns Netflix talkative_env example_system 0 (exchanged 5) 5
   \<and> between_turns PuppyGuide talkative_env example_system 0 (exchanged 5) 5
   \<and> input_line talkative_env 5 = (Inr ''hello'', 5)
   \<and> py_strip ''hello'' = ''hello''
   \<and> py_lower ''hello'' = ''hello''
   \<and> max_history talkative_env = 10
   \<and> length (exchanged 5) = 11
   \<and> chat netflix_result_text (Suc 0) talkative_env 5 (exchanged 5) ''hello''
       = Some (Inr ''done'', exchanged 5 @ [UserMessage ''hello'', AssistantMessage final_answer], 6)
   \<and> chat puppy_result_text (Suc 0) talkative_env 5 (exchanged 5) ''hello''
       = Some (Inr ''done'', exchanged 5 @ [UserMessage ''hello'', AssistantMessage final_answer], 6)
   \<and> repl_iteration Netflix (Suc 0) talkative_env 5 (exchanged 5)
       = Some (Inr Continue, [example_system], 6)
   \<and> repl_iteration PuppyGuide (Suc 0) talkative_env 5 (exchanged 5)
       = Some (Inr Continue, [example_system], 6)"
proof -
  have bn: "between_turns Netflix talkative_env example_system 0 (exchanged 5) 5"
    and bp: "between_turns PuppyGuide talkative_env example_system 0 (exchanged 5) 5"
    using talkative_between_turns[of 5] by simp_all
  have m: "max_history talkative_env = 10" by (simp add: talkative_env_def example_env_def)
  have i: "input_line talkative_env 5 = (Inr ''hello'', 5)" by (simp add: talkative_input)
  have len: "length (exchanged 5) = 11" by (simp add: length_exchanged)
  have c: "chat rt (Suc 0) talkative_env 5 (exchanged 5) ''hello''
       = Some (Inr ''done'', exchanged 5 @ [UserMessage ''hello'', AssistantMessage final_answer], 6)"
    for rt
    using talkative_chat[of rt 5 "exchanged 5"] by simp
  have long: "int (length (exchanged 5 @ [UserMessage ''hello'', AssistantMessage final_answer]))
                > max_history talkative_env + 1"
    by (simp add: m len)
  have ip: "input_line talkative_env 5 = (Inr ''hello'', 5)
             \<and> chat puppy_result_text (Suc 0) talkative_env 5 (exchanged 5) (py_strip ''hello'')
                 = Some (Inr ''done'',
                         exchanged 5 @ [UserMessage ''hello'', AssistantMessage final_answer], 6)"
    using i c by (simp add: hello_is_no_command)
  have inx: "input_line talkative_env 5 = (Inr ''hello'', 5)
             \<and> py_strip ''hello'' \<noteq> []
             \<and> py_lower (py_strip ''hello'') \<notin> set [''quit'', ''exit'', ''q'', ''clear'']
             \<and> chat netflix_result_text (Suc 0) talkative_env 5 (exchanged 5) (py_strip ''hello'')
                 = Some (Inr ''done'',
                         exchanged 5 @ [UserMessage ''hello'', AssistantMessage final_answer], 6)"
    using i c hello_is_a_question by (simp add: hello_is_no_command)
  note p = history_bounded_between_turns[OF bp, THEN conjunct2, THEN conjunct2, THEN conjunct2,
      THEN conjunct1, rule_format, OF ip, unfolded if_P[OF long]]
  note n = history_bounded_between_turns[OF bn, THEN conjunct2, THEN conjunct2, THEN conjunct2,
      THEN conjunct2, rule_format, OF inx, unfolded if_P[OF long]]
  from bn bp i hello_is_no_command m len c[of netflix_result_text] c[of puppy_result_text] n p
  show ?thesis by (intro conjI)
qed

end
